theory Spec2Isabelle
  imports Complex_Main "HOL-Library.Word" "HOL-Library.Sublist" "HOL-Library.Log_Nat"
begin

section \<open>The signal quality calculator of PixelPilot\<close>

text \<open>
  A shallow embedding of \<^verbatim>\<open>SignalQualityCalculator.h\<close> and
  \<^verbatim>\<open>SignalQualityCalculator.cpp\<close>.

  \<^item> A \<^verbatim>\<open>steady_clock::time_point\<close> is the integer number of nanoseconds it holds.
    Every call of \<^verbatim>\<open>steady_clock::now()\<close> is an explicit argument of the function
    that makes it, in the order of the calls, so that an operation reading the clock
    several times takes several readings.
  \<^item> \<^verbatim>\<open>uint8_t\<close>, \<^verbatim>\<open>int8_t\<close> and \<^verbatim>\<open>uint32_t\<close> are words of that width, an
    \<^verbatim>\<open>int8_t\<close> being read with \<open>sint\<close> and the unsigned ones with \<open>unat\<close> or
    \<open>uint\<close>; the \<^verbatim>\<open>int\<close> fields of the result hold the integer the 32-bit value
    denotes.
  \<^item> A \<^verbatim>\<open>float\<close> or \<^verbatim>\<open>double\<close> is the real number it denotes, and every
    floating-point operation rounds its exact result to the format of the operation,
    to nearest with ties to even (\<open>to_float\<close>, \<open>to_double\<close>). The conversion of a
    \<^verbatim>\<open>float\<close> to \<^verbatim>\<open>int\<close> truncates towards zero.
  \<^item> The values drawn from \<^verbatim>\<open>std::uniform_int_distribution\<close> are an argument
    \<open>draws\<close>: \<open>draws i\<close> is the result of the \<open>i\<close>-th call of \<^verbatim>\<open>distrib(gen)\<close>.
  \<^item> The recursive mutex is not modelled: each operation is one atomic state transformer.
\<close>

subsection \<open>Floating-point rounding\<close>

text \<open>
  IEEE 754 rounding to nearest, ties to even, of a real number to \<open>p\<close> significant
  bits: 24 for \<^verbatim>\<open>float\<close>, 53 for \<^verbatim>\<open>double\<close>. \<open>ilog2 x\<close> is the exponent of the
  leading bit of \<open>x\<close>, so that \<open>x\<close> divided by the unit in its last place has \<open>p\<close>
  bits before the point, and \<open>rne\<close> rounds that quotient to an integer. The exponent
  is not bounded: the sums, means and scores computed from the windows are zero or lie
  between \<open>2^-40\<close> and \<open>2^40\<close> in size, well inside the normal range of both
  formats, where there is no overflow, underflow, infinity or NaN.
\<close>

definition rne :: "real \<Rightarrow> int" where
  "rne x = (if x - of_int \<lfloor>x\<rfloor> < 1 / 2 then \<lfloor>x\<rfloor>
            else if 1 / 2 < x - of_int \<lfloor>x\<rfloor> then \<lfloor>x\<rfloor> + 1
            else if even \<lfloor>x\<rfloor> then \<lfloor>x\<rfloor> else \<lfloor>x\<rfloor> + 1)"

definition ilog2 :: "real \<Rightarrow> int" where
  "ilog2 x = (if 1 \<le> \<bar>x\<bar> then bitlen \<lfloor>\<bar>x\<bar>\<rfloor> - 1 else - bitlen (\<lceil>1 / \<bar>x\<bar>\<rceil> - 1))"

definition round_float :: "nat \<Rightarrow> real \<Rightarrow> real" where
  "round_float p x =
     (if x = 0 then 0
      else of_int (rne (x / 2 powi (ilog2 x - (int p - 1)))) * 2 powi (ilog2 x - (int p - 1)))"

definition to_float :: "real \<Rightarrow> real" where
  "to_float = round_float 24"

definition to_double :: "real \<Rightarrow> real" where
  "to_double = round_float 53"

subsection \<open>Data\<close>

type_synonym time_point = int

record RssiEntry =
  timestamp :: time_point
  ant1 :: "8 word"
  ant2 :: "8 word"

record SnrEntry =
  timestamp :: time_point
  ant1 :: "8 word"
  ant2 :: "8 word"

record FecEntry =
  timestamp :: time_point
  all :: "32 word"
  recovered :: "32 word"
  lost :: "32 word"

record SignalQuality =
  lost_last_second :: int
  recovered_last_second :: int
  rssi :: int
  snr :: int
  link_score :: int
  idr_code :: string

record SignalQualityCalculator =
  m_rssis :: "RssiEntry list"
  m_snrs :: "SnrEntry list"
  m_fec_data :: "FecEntry list"
  m_idr_code :: string

text \<open>\<^verbatim>\<open>kAveragingWindow{std::chrono::seconds(1)}\<close>, in nanoseconds.\<close>

definition kAveragingWindow :: int where
  "kAveragingWindow = 1000000000"

text \<open>The default-constructed object: empty vectors and \<^verbatim>\<open>m_idr_code{"aaaa"}\<close>.\<close>

definition initial :: SignalQualityCalculator where
  "initial = \<lparr>m_rssis = [], m_snrs = [], m_fec_data = [], m_idr_code = ''aaaa''\<rparr>"

subsection \<open>The random identifier\<close>

definition characters :: string where
  "characters = ''abcdefghijklmnopqrstuvwxyz''"

definition generate_random_string :: "(nat \<Rightarrow> nat) \<Rightarrow> nat \<Rightarrow> string" where
  "generate_random_string draws len = map (\<lambda>i. characters ! draws i) [0..<len]"

subsection \<open>Pruning\<close>

text \<open>The erase-remove idiom keeps, in their order, the entries the predicate rejects.\<close>

definition cleanup_old_rssi_data :: "time_point \<Rightarrow> SignalQualityCalculator \<Rightarrow> SignalQualityCalculator" where
  "cleanup_old_rssi_data now s =
     (let cutoff = now - kAveragingWindow
      in s\<lparr>m_rssis := filter (\<lambda>entry. \<not> RssiEntry.timestamp entry < cutoff) (m_rssis s)\<rparr>)"

definition cleanup_old_snr_data :: "time_point \<Rightarrow> SignalQualityCalculator \<Rightarrow> SignalQualityCalculator" where
  "cleanup_old_snr_data now s =
     (let cutoff = now - kAveragingWindow
      in s\<lparr>m_snrs := filter (\<lambda>entry. \<not> SnrEntry.timestamp entry < cutoff) (m_snrs s)\<rparr>)"

definition cleanup_old_fec_data :: "time_point \<Rightarrow> SignalQualityCalculator \<Rightarrow> SignalQualityCalculator" where
  "cleanup_old_fec_data now s =
     (let cutoff = now - kAveragingWindow
      in s\<lparr>m_fec_data := filter (\<lambda>entry. \<not> FecEntry.timestamp entry < cutoff) (m_fec_data s)\<rparr>)"

subsection \<open>Ingestion\<close>

definition add_rssi :: "time_point \<Rightarrow> 8 word \<Rightarrow> 8 word \<Rightarrow> SignalQualityCalculator \<Rightarrow> SignalQualityCalculator" where
  "add_rssi now a1 a2 s =
     (let entry = \<lparr>RssiEntry.timestamp = now, ant1 = a1, ant2 = a2\<rparr>
      in s\<lparr>m_rssis := m_rssis s @ [entry]\<rparr>)"

definition add_snr :: "time_point \<Rightarrow> 8 word \<Rightarrow> 8 word \<Rightarrow> SignalQualityCalculator \<Rightarrow> SignalQualityCalculator" where
  "add_snr now a1 a2 s =
     (let entry = \<lparr>SnrEntry.timestamp = now, ant1 = a1, ant2 = a2\<rparr>
      in s\<lparr>m_snrs := m_snrs s @ [entry]\<rparr>)"

definition add_fec_data ::
  "time_point \<Rightarrow> (nat \<Rightarrow> nat) \<Rightarrow> 32 word \<Rightarrow> 32 word \<Rightarrow> 32 word \<Rightarrow> SignalQualityCalculator \<Rightarrow> SignalQualityCalculator" where
  "add_fec_data now draws p_all p_recovered p_lost s =
     (let entry = \<lparr>FecEntry.timestamp = now, all = p_all, recovered = p_recovered, lost = p_lost\<rparr>;
          s1 = (if p_lost > 0 then s\<lparr>m_idr_code := generate_random_string draws 4\<rparr> else s)
      in s1\<lparr>m_fec_data := m_fec_data s1 @ [entry]\<rparr>)"

subsection \<open>The snapshot\<close>

text \<open>
  The conversions of the antenna values to \<^verbatim>\<open>float\<close> in \<^verbatim>\<open>sum1 += entry.ant1\<close>,
  which are exact.
\<close>

definition rssi_ant1 :: "RssiEntry \<Rightarrow> real" where
  "rssi_ant1 entry = real (unat (RssiEntry.ant1 entry))"

definition rssi_ant2 :: "RssiEntry \<Rightarrow> real" where
  "rssi_ant2 entry = real (unat (RssiEntry.ant2 entry))"

definition snr_ant1 :: "SnrEntry \<Rightarrow> real" where
  "snr_ant1 entry = real_of_int (sint (SnrEntry.ant1 entry))"

definition snr_ant2 :: "SnrEntry \<Rightarrow> real" where
  "snr_ant2 entry = real_of_int (sint (SnrEntry.ant2 entry))"

text \<open>\<^verbatim>\<open>static_cast<int>\<close> of a size keeps its low 32 bits, read as a signed integer.\<close>

definition size_to_int :: "nat \<Rightarrow> int" where
  "size_to_int n = sint (of_nat n :: 32 word)"

text \<open>
  The template \<^verbatim>\<open>get_average\<close>: \<open>array\<close> selects the member the reference argument is
  bound to, so it is read after \<^verbatim>\<open>cleanup_old_rssi_data()\<close> has run, whatever the
  member is. The sums are \<^verbatim>\<open>float\<close> variables, so each addition rounds, and each
  division is by the count converted to \<^verbatim>\<open>float\<close>.
\<close>

definition get_average ::
  "time_point \<Rightarrow> (SignalQualityCalculator \<Rightarrow> 'e list) \<Rightarrow> ('e \<Rightarrow> real) \<Rightarrow> ('e \<Rightarrow> real) \<Rightarrow>
   SignalQualityCalculator \<Rightarrow> (real \<times> real) \<times> SignalQualityCalculator" where
  "get_average now array e_ant1 e_ant2 s =
     (let s1 = cleanup_old_rssi_data now s;
          count = size_to_int (length (array s1))
      in (if count > 0
          then (let sum1 = foldl (\<lambda>acc entry. to_float (acc + e_ant1 entry)) 0 (array s1);
                    sum2 = foldl (\<lambda>acc entry. to_float (acc + e_ant2 entry)) 0 (array s1)
                in (to_float (sum1 / to_float (real_of_int count)),
                    to_float (sum2 / to_float (real_of_int count))))
          else (0, 0), s1))"

text \<open>\<^verbatim>\<open>map_range\<close> works on \<^verbatim>\<open>double\<close>: each of its operations rounds to 53 bits.\<close>

definition map_range :: "real \<Rightarrow> real \<Rightarrow> real \<Rightarrow> real \<Rightarrow> real \<Rightarrow> real" where
  "map_range v inputMin inputMax outputMin outputMax =
     (let val = to_double (outputMin +
            to_double (to_double (to_double (v - inputMin) * to_double (outputMax - outputMin))
              / to_double (inputMax - inputMin)))
      in max outputMin (min outputMax val))"

definition get_accumulated_fec_data ::
  "time_point \<Rightarrow> SignalQualityCalculator \<Rightarrow> (32 word \<times> 32 word) \<times> SignalQualityCalculator" where
  "get_accumulated_fec_data now s =
     (let s1 = cleanup_old_fec_data now s
      in if m_fec_data s1 = [] then ((300, 300), s1)
         else (let p_recovered = foldl (\<lambda>acc d. acc + FecEntry.recovered d) 0 (m_fec_data s1);
                   p_all = foldl (\<lambda>acc d. acc + FecEntry.all d) 0 (m_fec_data s1);
                   p_lost = foldl (\<lambda>acc d. acc + FecEntry.lost d) 0 (m_fec_data s1)
               in ((p_recovered, p_lost), s1)))"

text \<open>A \<^verbatim>\<open>float\<close> stored in an \<^verbatim>\<open>int\<close> loses its fractional part.\<close>

definition float_to_int :: "real \<Rightarrow> int" where
  "float_to_int x = (if 0 \<le> x then \<lfloor>x\<rfloor> else \<lceil>x\<rceil>)"

text \<open>
  \<^verbatim>\<open>calculate_signal_quality\<close> reads the clock six times: in the two calls of
  \<^verbatim>\<open>get_average\<close>, in \<^verbatim>\<open>get_accumulated_fec_data\<close> and in the three final cleanups.
  The \<^verbatim>\<open>double\<close> results of \<^verbatim>\<open>map_range\<close> are narrowed to \<^verbatim>\<open>float\<close>, and the link
  scores are computed in \<^verbatim>\<open>float\<close>. Halving is exact, so a compiler that contracts
  \<^verbatim>\<open>0.5f * rssi0 + 0.5f * snr0\<close> into a fused multiply-add computes the same value.
\<close>

definition calculate_signal_quality ::
  "time_point \<Rightarrow> time_point \<Rightarrow> time_point \<Rightarrow> time_point \<Rightarrow> time_point \<Rightarrow> time_point \<Rightarrow>
   SignalQualityCalculator \<Rightarrow> SignalQuality \<times> SignalQualityCalculator" where
  "calculate_signal_quality t1 t2 t3 t4 t5 t6 s =
     (let (avg_rssi, s1) = get_average t1 m_rssis rssi_ant1 rssi_ant2 s;
          (avg_snr, s2) = get_average t2 m_snrs snr_ant1 snr_ant2 s1;
          rssi0 = to_float (map_range (fst avg_rssi) 0 126 0 100);
          rssi1 = to_float (map_range (snd avg_rssi) 0 126 0 100);
          snr0 = to_float (map_range (fst avg_snr) 0 60 0 100);
          snr1 = to_float (map_range (snd avg_snr) 0 60 0 100);
          link_score0 = to_float (to_float (0.5 * rssi0) + to_float (0.5 * snr0));
          link_score1 = to_float (to_float (0.5 * rssi1) + to_float (0.5 * snr1));
          ((p_recovered, p_lost), s3) = get_accumulated_fec_data t3 s2;
          ret = \<lparr>lost_last_second = sint p_lost,
                 recovered_last_second = sint p_recovered,
                 rssi = float_to_int (max (fst avg_rssi) (snd avg_rssi)),
                 snr = float_to_int (max (fst avg_snr) (snd avg_snr)),
                 link_score = float_to_int (max link_score0 link_score1),
                 idr_code = m_idr_code s3\<rparr>;
          s4 = cleanup_old_rssi_data t4 s3;
          s5 = cleanup_old_snr_data t5 s4;
          s6 = cleanup_old_fec_data t6 s5
      in (ret, s6))"

text \<open>
  The two computations above on the values of one antenna: the mean as
  \<^verbatim>\<open>get_average\<close> computes it from the list of values, and the link score of one
  antenna as \<^verbatim>\<open>calculate_signal_quality\<close> computes it from the two means.
\<close>

definition float_mean :: "real list \<Rightarrow> real" where
  "float_mean vs =
     (if size_to_int (length vs) > 0
      then to_float (foldl (\<lambda>acc v. to_float (acc + v)) 0 vs
             / to_float (real_of_int (size_to_int (length vs))))
      else 0)"

definition float_score :: "real \<Rightarrow> real \<Rightarrow> real" where
  "float_score rssi_mean snr_mean =
     to_float (to_float (0.5 * to_float (map_range rssi_mean 0 126 0 100)) +
               to_float (0.5 * to_float (map_range snr_mean 0 60 0 100)))"

subsection \<open>Histories of operations\<close>

text \<open>
  The public operations with their arguments and clock readings, and the state a
  sequence of them leaves, starting from any state. \<^verbatim>\<open>get_average\<close> is public too: a
  caller outside the class passes an array of its own, here the list of its antenna
  values.
\<close>

datatype operation =
  Add_rssi time_point "8 word" "8 word"
| Add_snr time_point "8 word" "8 word"
| Add_fec_data time_point "nat \<Rightarrow> nat" "32 word" "32 word" "32 word"
| Calculate_signal_quality time_point time_point time_point time_point time_point time_point
| Get_average time_point "(real \<times> real) list"

fun perform :: "operation \<Rightarrow> SignalQualityCalculator \<Rightarrow> SignalQualityCalculator" where
  "perform (Add_rssi now a1 a2) s = add_rssi now a1 a2 s"
| "perform (Add_snr now a1 a2) s = add_snr now a1 a2 s"
| "perform (Add_fec_data now draws p_all p_recovered p_lost) s =
     add_fec_data now draws p_all p_recovered p_lost s"
| "perform (Calculate_signal_quality t1 t2 t3 t4 t5 t6) s =
     snd (calculate_signal_quality t1 t2 t3 t4 t5 t6 s)"
| "perform (Get_average now array) s = snd (get_average now (\<lambda>_. array) fst snd s)"

fun run :: "operation list \<Rightarrow> SignalQualityCalculator \<Rightarrow> SignalQualityCalculator" where
  "run [] s = s"
| "run (x # xs) s = run xs (perform x s)"

fun lossy :: "operation \<Rightarrow> bool" where
  "lossy (Add_fec_data now draws p_all p_recovered p_lost) = (p_lost > 0)"
| "lossy _ = False"

text \<open>The samples a history ingests into each window, in the order of their arrival.\<close>

fun arrived_rssis :: "operation list \<Rightarrow> RssiEntry list" where
  "arrived_rssis [] = []"
| "arrived_rssis (Add_rssi now a1 a2 # xs) =
     \<lparr>RssiEntry.timestamp = now, ant1 = a1, ant2 = a2\<rparr> # arrived_rssis xs"
| "arrived_rssis (_ # xs) = arrived_rssis xs"

fun arrived_snrs :: "operation list \<Rightarrow> SnrEntry list" where
  "arrived_snrs [] = []"
| "arrived_snrs (Add_snr now a1 a2 # xs) =
     \<lparr>SnrEntry.timestamp = now, ant1 = a1, ant2 = a2\<rparr> # arrived_snrs xs"
| "arrived_snrs (_ # xs) = arrived_snrs xs"

fun arrived_fecs :: "operation list \<Rightarrow> FecEntry list" where
  "arrived_fecs [] = []"
| "arrived_fecs (Add_fec_data now draws p_all p_recovered p_lost # xs) =
     \<lparr>FecEntry.timestamp = now, all = p_all, recovered = p_recovered, lost = p_lost\<rparr>
       # arrived_fecs xs"
| "arrived_fecs (_ # xs) = arrived_fecs xs"

subsection \<open>Reference notions of the specification\<close>

text \<open>
  These definitions follow the words of the specification, not the code, and use exact
  arithmetic; the snapshot the code computes is compared with them below.

  The arithmetic mean of the specification: 0 on an empty window.
\<close>

definition spec_mean :: "real list \<Rightarrow> real" where
  "spec_mean xs = (if xs = [] then 0 else sum_list xs / real (length xs))"

text \<open>
  The normalisation of the specification,
  \<^verbatim>\<open>clamp(outMin + (v-inMin)*(outMax-outMin)/(inMax-inMin), outMin, outMax)\<close>.
\<close>

definition spec_normalize :: "real \<Rightarrow> real \<Rightarrow> real \<Rightarrow> real \<Rightarrow> real \<Rightarrow> real" where
  "spec_normalize v inMin inMax outMin outMax =
     max outMin (min outMax (outMin + (v - inMin) * (outMax - outMin) / (inMax - inMin)))"

text \<open>
  The blended score of one antenna as the specification words it: half the RSSI mean
  normalised from [0,126] plus half the SNR mean normalised from [0,60].
\<close>

definition spec_antenna_score :: "real \<Rightarrow> real \<Rightarrow> real" where
  "spec_antenna_score rssi_mean snr_mean =
     0.5 * spec_normalize rssi_mean 0 126 0 100 + 0.5 * spec_normalize snr_mean 0 60 0 100"

text \<open>The counters of an FEC sample as numbers.\<close>

definition fec_recovered :: "FecEntry \<Rightarrow> int" where
  "fec_recovered d = uint (FecEntry.recovered d)"

definition fec_lost :: "FecEntry \<Rightarrow> int" where
  "fec_lost d = uint (FecEntry.lost d)"

text \<open>The value a \<^verbatim>\<open>uint32_t\<close> holding \<open>n\<close> modulo \<open>2^32\<close> has once stored in an \<^verbatim>\<open>int\<close>.\<close>

definition int32_of :: "int \<Rightarrow> int" where
  "int32_of n = sint (word_of_int n :: 32 word)"

section \<open>Properties\<close>

subsection \<open>Rounding\<close>

lemma two_powi: "(2::real) powi k = (if 0 \<le> k then 2 ^ nat k else 1 / 2 ^ nat (- k))"
  by (simp add: power_int_def power_one_over inverse_eq_divide)

lemma two_powi_le_iff: "(2::real) powi a \<le> 2 powi b \<longleftrightarrow> a \<le> b"
proof
  assume le: "(2::real) powi a \<le> 2 powi b"
  show "a \<le> b"
  proof (rule ccontr)
    assume "\<not> a \<le> b"
    then have "b < a" by simp
    then have "(2::real) powi b < 2 powi a"
      by (rule power_int_strict_increasing) simp
    with le show False by simp
  qed
next
  assume "a \<le> b"
  then show "(2::real) powi a \<le> 2 powi b"
    by (rule power_int_increasing) simp
qed

lemma two_powi_less_iff: "(2::real) powi a < 2 powi b \<longleftrightarrow> a < b"
  using two_powi_le_iff [of b a] by (simp add: not_le [symmetric])

lemma rne_ge_floor: "\<lfloor>x\<rfloor> \<le> rne x"
  by (simp add: rne_def)

lemma rne_le_ceiling: "rne x \<le> \<lceil>x\<rceil>"
  by (auto simp: rne_def ceiling_altdef)

lemma rne_of_int: "rne (of_int n) = n"
  by (simp add: rne_def)

lemma rne_minus: "rne (- x) = - rne x"
proof (cases "x = of_int \<lfloor>x\<rfloor>")
  case True
  then obtain n where "x = of_int n" ..
  then show ?thesis
    by (simp add: rne_of_int flip: of_int_minus)
next
  case False
  then have fl: "\<lfloor>- x\<rfloor> = - \<lfloor>x\<rfloor> - 1"
    by (simp add: floor_minus ceiling_altdef)
  show ?thesis
    unfolding rne_def fl by (auto simp: algebra_simps)
qed

lemma rne_error: "\<bar>of_int (rne x) - x\<bar> \<le> 1 / 2"
  unfolding rne_def by (auto simp: abs_le_iff)

lemma ilog2_minus: "ilog2 (- x) = ilog2 x"
  by (simp add: ilog2_def)

lemma ilog2_le:
  assumes "x \<noteq> 0"
  shows "2 powi (ilog2 x) \<le> \<bar>x\<bar>"
proof (cases "1 \<le> \<bar>x\<bar>")
  case True
  then have pos: "0 < \<lfloor>\<bar>x\<bar>\<rfloor>" by linarith
  from bitlen_bounds [OF pos] have "2 ^ nat (bitlen \<lfloor>\<bar>x\<bar>\<rfloor> - 1) \<le> \<lfloor>\<bar>x\<bar>\<rfloor>" ..
  then have "(2::real) ^ nat (bitlen \<lfloor>\<bar>x\<bar>\<rfloor> - 1) \<le> of_int \<lfloor>\<bar>x\<bar>\<rfloor>"
    by (metis of_int_le_iff of_int_numeral of_int_power)
  also have "\<dots> \<le> \<bar>x\<bar>" by linarith
  finally have le: "(2::real) ^ nat (bitlen \<lfloor>\<bar>x\<bar>\<rfloor> - 1) \<le> \<bar>x\<bar>" .
  from pos have "1 \<le> bitlen \<lfloor>\<bar>x\<bar>\<rfloor>"
    using bitlen_eq_zero_iff [of "\<lfloor>\<bar>x\<bar>\<rfloor>"] bitlen_nonneg [of "\<lfloor>\<bar>x\<bar>\<rfloor>"] by linarith
  with True le show ?thesis
    by (simp add: ilog2_def power_int_def)
next
  case False
  with assms have lt: "0 < \<bar>x\<bar>" "\<bar>x\<bar> < 1" by simp_all
  let ?M = "\<lceil>1 / \<bar>x\<bar>\<rceil>"
  from lt have "1 < 1 / \<bar>x\<bar>" by simp
  then have pos: "0 < ?M - 1" by linarith
  from bitlen_bounds [OF pos] have "?M - 1 < 2 ^ nat (bitlen (?M - 1))" ..
  then have "?M \<le> 2 ^ nat (bitlen (?M - 1))" by simp
  then have "of_int ?M \<le> (2::real) ^ nat (bitlen (?M - 1))"
    by (metis of_int_le_iff of_int_numeral of_int_power)
  moreover have "1 / \<bar>x\<bar> \<le> of_int ?M" by linarith
  ultimately have "1 / \<bar>x\<bar> \<le> (2::real) ^ nat (bitlen (?M - 1))" by linarith
  with lt have "1 / (2::real) ^ nat (bitlen (?M - 1)) \<le> \<bar>x\<bar>"
    by (simp add: field_simps)
  moreover from pos have "1 \<le> bitlen (?M - 1)"
    using bitlen_eq_zero_iff [of "?M - 1"] bitlen_nonneg [of "?M - 1"] by linarith
  ultimately show ?thesis
    using False by (simp add: ilog2_def two_powi)
qed

lemma ilog2_less:
  assumes "x \<noteq> 0"
  shows "\<bar>x\<bar> < 2 powi (ilog2 x + 1)"
proof (cases "1 \<le> \<bar>x\<bar>")
  case True
  then have pos: "0 < \<lfloor>\<bar>x\<bar>\<rfloor>" by linarith
  from bitlen_bounds [OF pos] have "\<lfloor>\<bar>x\<bar>\<rfloor> < 2 ^ nat (bitlen \<lfloor>\<bar>x\<bar>\<rfloor>)" ..
  then have "\<lfloor>\<bar>x\<bar>\<rfloor> + 1 \<le> 2 ^ nat (bitlen \<lfloor>\<bar>x\<bar>\<rfloor>)" by simp
  then have "of_int (\<lfloor>\<bar>x\<bar>\<rfloor> + 1) \<le> (2::real) ^ nat (bitlen \<lfloor>\<bar>x\<bar>\<rfloor>)"
    by (metis of_int_le_iff of_int_numeral of_int_power)
  moreover have "\<bar>x\<bar> < of_int (\<lfloor>\<bar>x\<bar>\<rfloor> + 1)" by linarith
  ultimately have "\<bar>x\<bar> < (2::real) ^ nat (bitlen \<lfloor>\<bar>x\<bar>\<rfloor>)" by linarith
  moreover have "0 \<le> bitlen \<lfloor>\<bar>x\<bar>\<rfloor>" by (rule bitlen_nonneg)
  ultimately show ?thesis
    using True by (simp add: ilog2_def power_int_def)
next
  case False
  with assms have lt: "0 < \<bar>x\<bar>" "\<bar>x\<bar> < 1" by simp_all
  let ?M = "\<lceil>1 / \<bar>x\<bar>\<rceil>"
  from lt have "1 < 1 / \<bar>x\<bar>" by simp
  then have pos: "0 < ?M - 1" by linarith
  then have one: "1 \<le> bitlen (?M - 1)"
    using bitlen_eq_zero_iff [of "?M - 1"] bitlen_nonneg [of "?M - 1"] by linarith
  from bitlen_bounds [OF pos] have "2 ^ nat (bitlen (?M - 1) - 1) \<le> ?M - 1" ..
  then have "(2::real) ^ nat (bitlen (?M - 1) - 1) \<le> of_int (?M - 1)"
    by (metis of_int_le_iff of_int_numeral of_int_power)
  moreover have "of_int (?M - 1) < 1 / \<bar>x\<bar>" by linarith
  ultimately have "(2::real) ^ nat (bitlen (?M - 1) - 1) < 1 / \<bar>x\<bar>" by linarith
  with lt have "\<bar>x\<bar> < 1 / (2::real) ^ nat (bitlen (?M - 1) - 1)"
    by (simp add: field_simps)
  moreover from one have "ilog2 x + 1 = - (bitlen (?M - 1) - 1)"
    using False by (simp add: ilog2_def)
  ultimately show ?thesis
    using one lt by (simp add: two_powi)
qed

lemma round_float_minus: "round_float p (- x) = - round_float p x"
  by (simp add: round_float_def ilog2_minus rne_minus)

lemma round_float_nonneg: "0 \<le> x \<Longrightarrow> 0 \<le> round_float p x"
proof -
  assume "0 \<le> x"
  then have "0 \<le> x / 2 powi (ilog2 x - (int p - 1))" by simp
  then have "0 \<le> \<lfloor>x / 2 powi (ilog2 x - (int p - 1))\<rfloor>" by simp
  with rne_ge_floor [of "x / 2 powi (ilog2 x - (int p - 1))"]
  have "0 \<le> rne (x / 2 powi (ilog2 x - (int p - 1)))" by linarith
  then show ?thesis
    by (simp add: round_float_def)
qed

lemma round_float_upper_pos:
  assumes x: "0 < x" and le: "x \<le> of_int m * 2 powi k" and m: "m < 2 ^ p"
  shows "round_float p x \<le> of_int m * 2 powi k"
proof -
  let ?e = "ilog2 x - (int p - 1)"
  let ?u = "(2::real) powi ?e"
  have u: "0 < ?u" by simp
  from x le have "0 < real_of_int m * 2 powi k" by linarith
  from x have "2 powi (ilog2 x) \<le> x" using ilog2_le [of x] by simp
  also note le
  also have "of_int m * 2 powi k < (2::real) ^ p * 2 powi k"
    using m by (simp add: of_int_less_numeral_power_cancel_iff)
  also have "\<dots> = 2 powi (int p + k)"
    by (simp add: power_int_add)
  finally have "ilog2 x < int p + k"
    by (simp add: two_powi_less_iff)
  then have ke: "0 \<le> k - ?e" by simp
  have "of_int m * 2 powi k = of_int m * 2 powi (k - ?e) * ?u"
    by (simp add: power_int_diff)
  also have "(2::real) powi (k - ?e) = of_int (2 ^ nat (k - ?e))"
    using ke by (simp add: power_int_def)
  finally have b: "of_int m * 2 powi k = of_int (m * 2 ^ nat (k - ?e)) * ?u"
    by simp
  from le u have "x / ?u \<le> of_int (m * 2 ^ nat (k - ?e))"
    unfolding b by (simp add: field_simps)
  then have "\<lceil>x / ?u\<rceil> \<le> m * 2 ^ nat (k - ?e)"
    by (simp add: ceiling_le_iff)
  with rne_le_ceiling [of "x / ?u"] have "rne (x / ?u) \<le> m * 2 ^ nat (k - ?e)"
    by linarith
  then have "of_int (rne (x / ?u)) * ?u \<le> of_int (m * 2 ^ nat (k - ?e)) * ?u"
    using u by (simp only: mult_le_cancel_right_pos of_int_le_iff)
  with x show ?thesis
    unfolding b by (simp add: round_float_def)
qed

lemma round_float_lower_pos:
  assumes a: "0 < of_int m * (2::real) powi k" and le: "of_int m * 2 powi k \<le> x"
    and m: "m < 2 ^ p" and p: "0 < p"
  shows "of_int m * 2 powi k \<le> round_float p x"
proof -
  let ?e = "ilog2 x - (int p - 1)"
  let ?u = "(2::real) powi ?e"
  have u: "0 < ?u" by simp
  from a le have x: "0 < x" by linarith
  have rf: "round_float p x = of_int (rne (x / ?u)) * ?u"
    using x by (simp add: round_float_def)
  show ?thesis
  proof (cases "?e \<le> k")
    case True
    then have ke: "0 \<le> k - ?e" by simp
    have "of_int m * 2 powi k = of_int m * 2 powi (k - ?e) * ?u"
      by (simp add: power_int_diff)
    also have "(2::real) powi (k - ?e) = of_int (2 ^ nat (k - ?e))"
      using ke by (simp add: power_int_def)
    finally have b: "of_int m * 2 powi k = of_int (m * 2 ^ nat (k - ?e)) * ?u"
      by simp
    from le u have "of_int (m * 2 ^ nat (k - ?e)) \<le> x / ?u"
      unfolding b by (simp add: field_simps)
    then have "m * 2 ^ nat (k - ?e) \<le> \<lfloor>x / ?u\<rfloor>"
      by (simp add: le_floor_iff)
    with rne_ge_floor [of "x / ?u"] have "m * 2 ^ nat (k - ?e) \<le> rne (x / ?u)"
      by linarith
    then have "of_int (m * 2 ^ nat (k - ?e)) * ?u \<le> of_int (rne (x / ?u)) * ?u"
      using u by (simp only: mult_le_cancel_right_pos of_int_le_iff)
    then show ?thesis
      unfolding b rf .
  next
    case False
    then have k: "k \<le> ?e - 1" by simp
    have "of_int m * 2 powi k < (2::real) ^ p * 2 powi k"
      using m by (simp add: of_int_less_numeral_power_cancel_iff)
    also have "\<dots> = 2 powi (int p + k)"
      by (simp add: power_int_add)
    also have "\<dots> \<le> 2 powi (ilog2 x)"
      using k by (simp add: two_powi_le_iff)
    finally have lt: "of_int m * 2 powi k < (2::real) powi (ilog2 x)" .
    have "(2::real) powi (ilog2 x) = 2 powi (int p - 1) * ?u"
      by (simp flip: power_int_add)
    also have "(2::real) powi (int p - 1) = of_int (2 ^ (p - 1))"
      using p by (simp add: power_int_def nat_diff_distrib')
    finally have pw: "(2::real) powi (ilog2 x) = of_int (2 ^ (p - 1)) * ?u" .
    from x have "2 powi (ilog2 x) \<le> x" using ilog2_le [of x] by simp
    with u have "of_int (2 ^ (p - 1)) \<le> x / ?u"
      unfolding pw by (simp add: field_simps)
    then have "2 ^ (p - 1) \<le> \<lfloor>x / ?u\<rfloor>"
      by (simp add: le_floor_iff)
    with rne_ge_floor [of "x / ?u"] have "2 ^ (p - 1) \<le> rne (x / ?u)"
      by linarith
    then have "of_int (2 ^ (p - 1)) * ?u \<le> of_int (rne (x / ?u)) * ?u"
      using u by (simp only: mult_le_cancel_right_pos of_int_le_iff)
    with lt show ?thesis
      unfolding rf pw by linarith
  qed
qed


lemma round_float_le:
  assumes le: "x \<le> of_int m * 2 powi k" and m: "\<bar>m\<bar> < 2 ^ p" and p: "0 < p"
  shows "round_float p x \<le> of_int m * 2 powi k"
proof -
  consider "x = 0" | "0 < x" | "x < 0" "0 \<le> of_int m * (2::real) powi k"
    | "x < 0" "of_int m * (2::real) powi k < 0"
    by linarith
  then show ?thesis
  proof cases
    case 1
    with le show ?thesis by (simp add: round_float_def)
  next
    case 2
    from m have "m < 2 ^ p" by simp
    with 2 le show ?thesis by (rule round_float_upper_pos)
  next
    case 3
    then have "0 \<le> round_float p (- x)" by (intro round_float_nonneg) simp
    with 3 show ?thesis by (simp add: round_float_minus)
  next
    case 4
    then have pos: "0 < of_int (- m) * (2::real) powi k" by simp
    from le have le': "of_int (- m) * 2 powi k \<le> - x" by simp
    from m have "- m < 2 ^ p" by simp
    with pos le' have "of_int (- m) * 2 powi k \<le> round_float p (- x)"
      using p by (rule round_float_lower_pos)
    then show ?thesis by (simp add: round_float_minus)
  qed
qed

lemma round_float_ge:
  assumes le: "of_int m * 2 powi k \<le> x" and m: "\<bar>m\<bar> < 2 ^ p" and p: "0 < p"
  shows "of_int m * 2 powi k \<le> round_float p x"
proof -
  from le have "- x \<le> of_int (- m) * 2 powi k" by simp
  moreover from m have "\<bar>- m\<bar> < 2 ^ p" by simp
  ultimately have "round_float p (- x) \<le> of_int (- m) * 2 powi k"
    using p by (rule round_float_le)
  then show ?thesis by (simp add: round_float_minus)
qed

lemma round_float_exact:
  assumes "\<bar>m\<bar> < 2 ^ p" and "0 < p"
  shows "round_float p (of_int m * 2 powi k) = of_int m * 2 powi k"
  using round_float_le [OF order_refl assms] round_float_ge [OF order_refl assms]
  by (rule order_antisym)

lemma round_float_error: "\<bar>round_float p x - x\<bar> \<le> \<bar>x\<bar> / 2 ^ p"
proof (cases "x = 0")
  case True
  then show ?thesis by (simp add: round_float_def)
next
  case False
  let ?e = "ilog2 x - (int p - 1)"
  let ?u = "(2::real) powi ?e"
  have u: "0 < ?u" by simp
  have "round_float p x - x = (of_int (rne (x / ?u)) - x / ?u) * ?u"
    using False by (simp add: round_float_def algebra_simps)
  then have "\<bar>round_float p x - x\<bar> = \<bar>of_int (rne (x / ?u)) - x / ?u\<bar> * ?u"
    using u by (simp add: abs_mult)
  also have "\<dots> \<le> 1 / 2 * ?u"
    using rne_error [of "x / ?u"] u by (simp only: mult_le_cancel_right_pos)
  also have "1 / 2 * ?u = 2 powi (ilog2 x) / 2 ^ p"
    by (simp add: power_int_diff)
  also have "\<dots> \<le> \<bar>x\<bar> / 2 ^ p"
    using ilog2_le [OF False] by (simp add: divide_right_mono)
  finally show ?thesis .
qed

text \<open>Integers and dyadic fractions of fewer than 24 bits are \<^verbatim>\<open>float\<close> values.\<close>

lemma to_float_le: "x \<le> of_int m * 2 powi k \<Longrightarrow> \<bar>m\<bar> < 2 ^ 24 \<Longrightarrow> to_float x \<le> of_int m * 2 powi k"
  unfolding to_float_def by (rule round_float_le) simp_all

lemma to_float_ge: "of_int m * 2 powi k \<le> x \<Longrightarrow> \<bar>m\<bar> < 2 ^ 24 \<Longrightarrow> of_int m * 2 powi k \<le> to_float x"
  unfolding to_float_def by (rule round_float_ge) simp_all

lemma to_float_le_int: "x \<le> of_int m \<Longrightarrow> \<bar>m\<bar> < 2 ^ 24 \<Longrightarrow> to_float x \<le> of_int m"
  using to_float_le [of x m 0] by simp

lemma to_float_ge_int: "of_int m \<le> x \<Longrightarrow> \<bar>m\<bar> < 2 ^ 24 \<Longrightarrow> of_int m \<le> to_float x"
  using to_float_ge [of m 0 x] by simp

lemma to_float_of_int: "\<bar>m\<bar> < 2 ^ 24 \<Longrightarrow> to_float (of_int m) = of_int m"
  using round_float_exact [of m 24 0] by (simp add: to_float_def)

lemma to_double_of_int: "\<bar>m\<bar> < 2 ^ 53 \<Longrightarrow> to_double (of_int m) = of_int m"
  using round_float_exact [of m 53 0] by (simp add: to_double_def)

lemma to_float_minus: "to_float (- x) = - to_float x"
  by (simp add: to_float_def round_float_minus)

lemma to_float_error: "\<bar>to_float x - x\<bar> \<le> \<bar>x\<bar> / 2 ^ 24"
  unfolding to_float_def by (rule round_float_error)

lemma to_double_error: "\<bar>to_double x - x\<bar> \<le> \<bar>x\<bar> / 2 ^ 53"
  unfolding to_double_def by (rule round_float_error)

lemma to_float_range: "0 \<le> x \<Longrightarrow> x \<le> of_int m \<Longrightarrow> \<bar>m\<bar> < 2 ^ 24 \<Longrightarrow> 0 \<le> to_float x \<and> to_float x \<le> of_int m"
  using to_float_ge_int [of 0 x] to_float_le_int [of x m] by simp

lemma to_float_numeral:
  "to_float 0 = 0"
  "to_float 1 = 1"
  "numeral n < (2::int) ^ 24 \<Longrightarrow> to_float (numeral n) = numeral n"
  "numeral n < (2::int) ^ 24 \<Longrightarrow> to_float (- numeral n) = - numeral n"
  using to_float_of_int [of 0] to_float_of_int [of 1] to_float_of_int [of "numeral n"]
    to_float_of_int [of "- numeral n"]
  by simp_all

lemma to_double_numeral:
  "to_double 0 = 0"
  "to_double 1 = 1"
  "numeral n < (2::int) ^ 53 \<Longrightarrow> to_double (numeral n) = numeral n"
  "numeral n < (2::int) ^ 53 \<Longrightarrow> to_double (- numeral n) = - numeral n"
  using to_double_of_int [of 0] to_double_of_int [of 1] to_double_of_int [of "numeral n"]
    to_double_of_int [of "- numeral n"]
  by simp_all

text \<open>Evaluation of the rounding on numerals.\<close>

lemmas float_eval =
  to_float_def to_double_def round_float_def ilog2_def rne_def compute_bitlen two_powi

subsection \<open>The mean in single precision\<close>

lemma float_to_int_minus: "float_to_int (- x) = - float_to_int x"
  by (simp add: float_to_int_def floor_minus ceiling_minus)

lemma float_to_int_mono:
  assumes "x \<le> y"
  shows "float_to_int x \<le> float_to_int y"
proof -
  consider "0 \<le> x" | "y < 0" | "x < 0" "0 \<le> y"
    by linarith
  then show ?thesis
  proof cases
    case 1
    with assms show ?thesis by (simp add: float_to_int_def floor_mono)
  next
    case 2
    with assms show ?thesis by (simp add: float_to_int_def ceiling_mono)
  next
    case 3
    then have "\<lceil>x\<rceil> \<le> 0" and "0 \<le> \<lfloor>y\<rfloor>" by simp_all
    then have "\<lceil>x\<rceil> \<le> \<lfloor>y\<rfloor>" by (rule order_trans)
    with 3 show ?thesis by (simp add: float_to_int_def)
  qed
qed

lemma float_to_int_max: "float_to_int (max x y) = max (float_to_int x) (float_to_int y)"
  by (simp add: max_def float_to_int_mono order_antisym)

text \<open>
  A running sum of integers that stays below \<open>2^24\<close> in size is exact.
\<close>

lemma foldl_to_float_ints:
  "\<forall>n \<in> set ns. \<bar>n\<bar> \<le> b \<Longrightarrow> \<bar>a\<bar> + b * int (length ns) < 2 ^ 24 \<Longrightarrow>
   foldl (\<lambda>acc v. to_float (acc + v)) (of_int a) (map of_int ns) = of_int (a + sum_list ns)"
proof (induction ns arbitrary: a)
  case Nil
  then show ?case by simp
next
  case (Cons n ns)
  from Cons.prems have n: "\<bar>n\<bar> \<le> b" and b: "0 \<le> b" by auto
  from Cons.prems have bound: "\<bar>a\<bar> + b + b * int (length ns) < 2 ^ 24"
    by (simp add: algebra_simps)
  have "0 \<le> b * int (length ns)" using b by simp
  with n bound have small: "\<bar>a + n\<bar> < 2 ^ 24" by linarith
  have step: "to_float (of_int a + of_int n) = of_int (a + n)"
    using to_float_of_int [OF small] by simp
  from n bound have "\<bar>a + n\<bar> + b * int (length ns) < 2 ^ 24" by linarith
  with Cons.prems have "foldl (\<lambda>acc v. to_float (acc + v)) (of_int (a + n)) (map of_int ns) =
      of_int (a + n + sum_list ns)"
    by (intro Cons.IH) simp_all
  then show ?case
    by (simp add: step add.assoc)
qed

text \<open>
  The quotient of an integer of at most 255 times the count by a count of at most
  65536, rounded to \<^verbatim>\<open>float\<close>, has the integer part of the exact quotient: the
  largest \<^verbatim>\<open>float\<close> below the next integer is at least the quotient.
\<close>

lemma float_to_int_quotient_nonneg:
  assumes n: "0 < n" "n \<le> 65536" and s: "0 \<le> s" "s \<le> 255 * n"
  shows "float_to_int (to_float (of_int s / of_int n)) = s div n"
proof -
  let ?q = "real_of_int s / real_of_int n"
  let ?k = "s div n"
  let ?m = "(?k + 1) * 65536 - 1"
  have k0: "0 \<le> ?k"
    using n s by (simp add: pos_imp_zdiv_nonneg_iff)
  have "?k \<le> (255 * n) div n"
    using s n by (intro zdiv_mono1) simp_all
  then have k255: "?k \<le> 255"
    using n by simp
  have md: "0 \<le> s mod n" "s mod n < n"
    using n by simp_all
  then have kn: "?k * n \<le> s"
    using div_mult_mod_eq [of s n] by linarith
  from md have "s < ?k * n + n"
    using div_mult_mod_eq [of s n] by linarith
  then have t: "s + 1 \<le> (?k + 1) * n"
    by (simp add: algebra_simps)
  have "?m * n = (?k + 1) * n * 65536 - n"
    by (simp add: algebra_simps)
  with t n have "s * 65536 \<le> ?m * n"
    by linarith
  then have "real_of_int (s * 65536) \<le> real_of_int (?m * n)"
    by (simp only: of_int_le_iff)
  then have "?q \<le> real_of_int ?m / 65536"
    using n by (simp add: field_simps)
  then have "?q \<le> real_of_int ?m * 2 powi (- 16)"
    by (simp add: two_powi)
  moreover have m: "\<bar>?m\<bar> < 2 ^ 24"
    using k0 k255 by simp
  ultimately have "to_float ?q \<le> real_of_int ?m * 2 powi (- 16)"
    by (rule to_float_le)
  then have upper: "to_float ?q < of_int ?k + 1"
    by (simp add: two_powi)
  have "of_int ?k \<le> ?q"
    using kn n by (simp add: pos_le_divide_eq flip: of_int_mult)
  moreover have "\<bar>?k\<bar> < 2 ^ 24"
    using k0 k255 by simp
  ultimately have lower: "of_int ?k \<le> to_float ?q"
    by (rule to_float_ge_int)
  have "0 \<le> real_of_int ?k"
    using k0 by simp
  with lower have "0 \<le> to_float ?q"
    by linarith
  moreover from lower upper have "\<lfloor>to_float ?q\<rfloor> = ?k"
    by (simp add: floor_unique)
  ultimately show ?thesis
    by (simp add: float_to_int_def)
qed

lemma float_to_int_quotient:
  assumes n: "0 < n" "n \<le> 65536" and s: "\<bar>s\<bar> \<le> 255 * n"
  shows "float_to_int (to_float (of_int s / of_int n)) = float_to_int (of_int s / of_int n)"
proof -
  have nonneg: "float_to_int (to_float (of_int t / of_int n)) = float_to_int (of_int t / of_int n)"
    if t: "0 \<le> t" "t \<le> 255 * n" for t
  proof -
    from n t have "float_to_int (to_float (of_int t / of_int n)) = t div n"
      by (rule float_to_int_quotient_nonneg)
    moreover have "float_to_int (real_of_int t / real_of_int n) = t div n"
      using t n by (simp add: float_to_int_def floor_divide_of_int_eq)
    ultimately show ?thesis by simp
  qed
  show ?thesis
  proof (cases "0 \<le> s")
    case True
    with s show ?thesis by (intro nonneg) simp_all
  next
    case False
    define t where "t = - s"
    with False s have "0 \<le> t" "t \<le> 255 * n" by simp_all
    then have "float_to_int (to_float (of_int t / of_int n)) = float_to_int (of_int t / of_int n)"
      by (rule nonneg)
    moreover have "real_of_int s / real_of_int n = - (real_of_int t / real_of_int n)"
      by (simp add: t_def)
    ultimately show ?thesis
      by (simp only: to_float_minus float_to_int_minus)
  qed
qed

lemma of_int_sum_list_map:
  "real_of_int (sum_list (map g xs)) = sum_list (map (\<lambda>e. of_int (g e)) xs)"
  by (induction xs) simp_all

lemma size_to_int_small: "n < 2 ^ 31 \<Longrightarrow> size_to_int n = int n"
proof -
  assume n: "n < 2 ^ 31"
  then have "int n < 2 ^ 31"
    by (metis of_nat_less_iff of_nat_numeral of_nat_power)
  then have "signed_take_bit 31 (int n) = int n"
    by (intro signed_take_bit_int_eq_self) simp_all
  then show ?thesis
    by (simp add: size_to_int_def signed_of_nat)
qed

lemma float_mean_Nil: "float_mean [] = 0"
  by (simp add: float_mean_def size_to_int_def)

text \<open>
  On a window of at most 65536 samples of 8-bit values the mean of \<^verbatim>\<open>get_average\<close> is
  the exact mean rounded once.
\<close>

lemma float_mean_eq:
  assumes len: "length xs \<le> 65536" and g: "\<And>e. \<bar>g e\<bar> \<le> 255"
  shows "float_mean (map (\<lambda>e. of_int (g e)) xs) = to_float (spec_mean (map (\<lambda>e. of_int (g e)) xs))"
proof (cases "xs = []")
  case True
  then show ?thesis
    by (simp add: float_mean_Nil spec_mean_def to_float_def round_float_def)
next
  case False
  have size: "size_to_int (length xs) = int (length xs)"
    using len by (intro size_to_int_small) simp
  have "\<bar>0::int\<bar> + 255 * int (length (map g xs)) < 2 ^ 24"
    using len by simp
  moreover have "\<forall>n \<in> set (map g xs). \<bar>n\<bar> \<le> 255"
    using g by simp
  ultimately have "foldl (\<lambda>acc v. to_float (acc + v)) (of_int 0) (map of_int (map g xs)) =
      of_int (0 + sum_list (map g xs))"
    by (intro foldl_to_float_ints)
  then have sum: "foldl (\<lambda>acc v. to_float (acc + v)) 0 (map (\<lambda>e. of_int (g e)) xs) =
      sum_list (map (\<lambda>e. of_int (g e)) xs)"
    by (simp add: comp_def of_int_sum_list_map)
  have "\<bar>int (length xs)\<bar> < 2 ^ 24"
    using len by simp
  then have "to_float (of_int (int (length xs))) = of_int (int (length xs))"
    by (rule to_float_of_int)
  then have count: "to_float (real (length xs)) = real (length xs)"
    by simp
  from False show ?thesis
    by (simp add: float_mean_def spec_mean_def size sum count)
qed

lemma float_mean_trunc:
  assumes len: "length xs \<le> 65536" and g: "\<And>e. \<bar>g e\<bar> \<le> 255"
  shows "float_to_int (float_mean (map (\<lambda>e. of_int (g e)) xs)) =
    float_to_int (spec_mean (map (\<lambda>e. of_int (g e)) xs))"
proof (cases "xs = []")
  case True
  then show ?thesis
    by (simp add: float_mean_Nil spec_mean_def)
next
  case False
  then have n: "0 < int (length xs)" "int (length xs) \<le> 65536"
    using len by simp_all
  have "\<bar>sum_list (map g xs)\<bar> \<le> sum_list (map (\<lambda>e. \<bar>g e\<bar>) xs)"
    by (induction xs) auto
  also have "\<dots> \<le> sum_list (map (\<lambda>e. 255) xs)"
    by (rule sum_list_mono) (simp add: g)
  also have "\<dots> = 255 * int (length xs)"
    by (simp add: sum_list_triv)
  finally have s: "\<bar>sum_list (map g xs)\<bar> \<le> 255 * int (length xs)" .
  have mean: "spec_mean (map (\<lambda>e. of_int (g e)) xs) =
      of_int (sum_list (map g xs)) / of_int (int (length xs))"
    using False by (simp add: spec_mean_def of_int_sum_list_map)
  show ?thesis
    unfolding float_mean_eq [OF len g] mean
    using n s by (rule float_to_int_quotient)
qed


subsection \<open>The link score in floating point\<close>

lemma spec_mean_bound:
  assumes g: "\<And>e. \<bar>g e\<bar> \<le> b"
  shows "\<bar>spec_mean (map (\<lambda>e. of_int (g e)) xs)\<bar> \<le> of_int b"
proof (cases "xs = []")
  case True
  from g [of undefined] have "0 \<le> b" by linarith
  with True show ?thesis by (simp add: spec_mean_def)
next
  case False
  then have n: "0 < real (length xs)" by simp
  have "\<bar>sum_list (map g xs)\<bar> \<le> sum_list (map (\<lambda>e. \<bar>g e\<bar>) xs)"
    by (induction xs) auto
  also have "\<dots> \<le> sum_list (map (\<lambda>e. b) xs)"
    by (rule sum_list_mono) (simp add: g)
  also have "\<dots> = b * int (length xs)"
    by (simp add: sum_list_triv)
  finally have "real_of_int \<bar>sum_list (map g xs)\<bar> \<le> real_of_int (b * int (length xs))"
    by (simp only: of_int_le_iff)
  then have "\<bar>real_of_int (sum_list (map g xs))\<bar> \<le> of_int b * real (length xs)"
    by simp
  then have "\<bar>real_of_int (sum_list (map g xs))\<bar> / real (length xs) \<le> of_int b"
    using n by (simp add: pos_divide_le_eq)
  with False n show ?thesis
    by (simp add: spec_mean_def of_int_sum_list_map)
qed

text \<open>
  On a window of at most 65536 samples the mean in single precision is within one
  rounding of the exact mean.
\<close>

lemma float_mean_error:
  assumes len: "length xs \<le> 65536" and g: "\<And>e. \<bar>g e\<bar> \<le> b" and b: "b \<le> 255"
  shows "\<bar>float_mean (map (\<lambda>e. of_int (g e)) xs) - spec_mean (map (\<lambda>e. of_int (g e)) xs)\<bar>
    \<le> of_int b / 2 ^ 24"
proof -
  let ?m = "spec_mean (map (\<lambda>e. of_int (g e)) xs)"
  have g255: "\<bar>g e\<bar> \<le> 255" for e
    using g [of e] b by linarith
  have "float_mean (map (\<lambda>e. of_int (g e)) xs) = to_float ?m"
    using len g255 by (rule float_mean_eq)
  moreover have "\<bar>to_float ?m - ?m\<bar> \<le> \<bar>?m\<bar> / 2 ^ 24"
    by (rule to_float_error)
  moreover have "\<bar>?m\<bar> / 2 ^ 24 \<le> of_int b / 2 ^ 24"
    using spec_mean_bound [of g b xs, OF g] by (simp add: divide_right_mono)
  ultimately show ?thesis by linarith
qed

text \<open>
  The normalisation in double precision, narrowed to \<^verbatim>\<open>float\<close>, against the exact
  normalisation of a nearby value.
\<close>

lemma to_float_error_numeral: "\<bar>to_float x - x\<bar> \<le> \<bar>x\<bar> / 16777216"
  using to_float_error [of x] by simp

lemma to_double_error_numeral: "\<bar>to_double x - x\<bar> \<le> \<bar>x\<bar> / 9007199254740992"
  using to_double_error [of x] by simp

lemma double_chain:
  fixes a b q e v x1 x2 x3 :: real
  assumes v: "\<bar>v\<bar> \<le> 256"
    and ea: "\<bar>a - v\<bar> \<le> \<bar>v\<bar> / 9007199254740992"
    and eb: "\<bar>b - a * 100\<bar> \<le> \<bar>a\<bar> * 100 / 9007199254740992"
    and bx: "\<bar>x1\<bar> \<le> \<bar>b\<bar> / 60"
    and eq: "\<bar>q - x1\<bar> \<le> \<bar>x1\<bar> / 9007199254740992"
    and ee: "\<bar>e - q\<bar> \<le> \<bar>q\<bar> / 9007199254740992"
    and e1: "\<bar>x1 - x2\<bar> \<le> \<bar>b - a * 100\<bar> / 60"
    and e2: "\<bar>x2 - x3\<bar> \<le> \<bar>a - v\<bar> * 100 / 60"
  shows "\<bar>e - x3\<bar> \<le> 1 / 16777216"
proof -
  from v ea have da: "\<bar>a - v\<bar> \<le> 1 / 2000000000000" by argo
  with v have ba: "\<bar>a\<bar> \<le> 257" by argo
  with eb have db: "\<bar>b - a * 100\<bar> \<le> 1 / 200000000000" by argo
  with ba have bb: "\<bar>b\<bar> \<le> 25701" by argo
  with bx have bx1: "\<bar>x1\<bar> \<le> 429" by argo
  with eq have dq: "\<bar>q - x1\<bar> \<le> 1 / 2000000000000" by argo
  with bx1 have bq: "\<bar>q\<bar> \<le> 430" by argo
  with ee have de: "\<bar>e - q\<bar> \<le> 1 / 2000000000000" by argo
  from e1 db have d1: "\<bar>x1 - x2\<bar> \<le> 1 / 2000000000000" by argo
  from e2 da have d2: "\<bar>x2 - x3\<bar> \<le> 1 / 1000000000000" by argo
  from de dq d1 d2 show ?thesis by argo
qed

lemma float_normalize_error:
  assumes c: "c = 126 \<or> c = 60" and v: "\<bar>v\<bar> \<le> 256" and d: "\<bar>v - w\<bar> \<le> d"
  shows "\<bar>to_float (map_range v 0 c 0 100) - spec_normalize w 0 c 0 100\<bar>
    \<le> 101 / 16777216 + d * 100 / c"
proof -
  define a where "a = to_double v"
  define b where "b = to_double (a * 100)"
  define x1 where "x1 = b / c"
  define q where "q = to_double x1"
  define e where "e = to_double q"
  define x2 where "x2 = a * 100 / c"
  define x3 where "x3 = v * 100 / c"
  define x4 where "x4 = w * 100 / c"
  define dc where "dc = d * 100 / c"
  have h: "to_double 100 = 100"
    using to_double_of_int [of 100] by simp
  have cc: "to_double c = c"
    using c to_double_of_int [of 126] to_double_of_int [of 60] by auto
  have c60: "60 \<le> c" "0 < c"
    using c by auto
  have ea: "\<bar>a - v\<bar> \<le> \<bar>v\<bar> / 9007199254740992"
    unfolding a_def by (rule to_double_error_numeral)
  have "\<bar>b - a * 100\<bar> \<le> \<bar>a * 100\<bar> / 9007199254740992"
    unfolding b_def by (rule to_double_error_numeral)
  moreover have "\<bar>a * 100\<bar> = \<bar>a\<bar> * 100"
    by (simp add: abs_mult)
  ultimately have eb: "\<bar>b - a * 100\<bar> \<le> \<bar>a\<bar> * 100 / 9007199254740992"
    by simp
  have "\<bar>x1\<bar> = \<bar>b\<bar> / c"
    using c60 by (simp add: x1_def)
  also have "\<dots> \<le> \<bar>b\<bar> / 60"
    by (rule frac_le) (use c60 in simp_all)
  finally have bx: "\<bar>x1\<bar> \<le> \<bar>b\<bar> / 60" .
  have eq: "\<bar>q - x1\<bar> \<le> \<bar>x1\<bar> / 9007199254740992"
    unfolding q_def by (rule to_double_error_numeral)
  have ee: "\<bar>e - q\<bar> \<le> \<bar>q\<bar> / 9007199254740992"
    unfolding e_def by (rule to_double_error_numeral)
  have "x1 - x2 = (b - a * 100) / c"
    by (simp add: x1_def x2_def diff_divide_distrib)
  then have "\<bar>x1 - x2\<bar> = \<bar>b - a * 100\<bar> / c"
    using c60 by simp
  also have "\<dots> \<le> \<bar>b - a * 100\<bar> / 60"
    by (rule frac_le) (use c60 in simp_all)
  finally have e1: "\<bar>x1 - x2\<bar> \<le> \<bar>b - a * 100\<bar> / 60" .
  have "x2 - x3 = (a - v) * 100 / c"
    by (simp add: x2_def x3_def diff_divide_distrib left_diff_distrib)
  then have "\<bar>x2 - x3\<bar> = \<bar>(a - v) * 100 / c\<bar>"
    by (rule arg_cong)
  also have "\<dots> = \<bar>a - v\<bar> * \<bar>100\<bar> / \<bar>c\<bar>"
    by (simp only: abs_mult abs_divide)
  also have "\<dots> = \<bar>a - v\<bar> * 100 / c"
    using c60 by simp
  also have "\<dots> \<le> \<bar>a - v\<bar> * 100 / 60"
    by (rule frac_le) (use c60 in simp_all)
  finally have e2: "\<bar>x2 - x3\<bar> \<le> \<bar>a - v\<bar> * 100 / 60" .
  from v ea eb bx eq ee e1 e2 have double: "\<bar>e - x3\<bar> \<le> 1 / 16777216"
    by (rule double_chain)
  have "x3 - x4 = (v - w) * 100 / c"
    by (simp add: x3_def x4_def diff_divide_distrib left_diff_distrib)
  then have "\<bar>x3 - x4\<bar> = \<bar>(v - w) * 100 / c\<bar>"
    by (rule arg_cong)
  also have "\<dots> = \<bar>v - w\<bar> * \<bar>100\<bar> / \<bar>c\<bar>"
    by (simp only: abs_mult abs_divide)
  also have "\<dots> = \<bar>v - w\<bar> * 100 / c"
    using c60 by simp
  also have "\<dots> \<le> d * 100 / c"
    using c60 d by (simp add: divide_right_mono)
  finally have e3: "\<bar>x3 - x4\<bar> \<le> dc"
    by (simp add: dc_def)
  have val: "map_range v 0 c 0 100 = max 0 (min 100 e)"
    by (simp add: map_range_def e_def q_def x1_def b_def a_def h cc)
  have spec: "spec_normalize w 0 c 0 100 = max 0 (min 100 x4)"
    by (simp add: spec_normalize_def x4_def)
  have "\<bar>to_float (max 0 (min 100 e)) - max 0 (min 100 e)\<bar>
      \<le> \<bar>max 0 (min 100 e)\<bar> / 16777216"
    by (rule to_float_error_numeral)
  then have narrow: "\<bar>to_float (max 0 (min 100 e)) - max 0 (min 100 e)\<bar> \<le> 100 / 16777216"
    by argo
  from double e3 have "\<bar>max 0 (min 100 e) - max 0 (min 100 x4)\<bar> \<le> 1 / 16777216 + dc"
    by argo
  with narrow have "\<bar>to_float (max 0 (min 100 e)) - max 0 (min 100 x4)\<bar> \<le> 101 / 16777216 + dc"
    by argo
  then show ?thesis
    by (simp only: val spec dc_def)
qed

lemma float_score_range: "0 \<le> float_score r q \<and> float_score r q \<le> 100"
proof -
  have nr: "0 \<le> to_float (map_range r 0 126 0 100) \<and> to_float (map_range r 0 126 0 100) \<le> of_int 100"
    by (rule to_float_range) (simp_all add: map_range_def)
  have nq: "0 \<le> to_float (map_range q 0 60 0 100) \<and> to_float (map_range q 0 60 0 100) \<le> of_int 100"
    by (rule to_float_range) (simp_all add: map_range_def)
  have hr: "0 \<le> to_float (0.5 * to_float (map_range r 0 126 0 100)) \<and>
      to_float (0.5 * to_float (map_range r 0 126 0 100)) \<le> of_int 50"
    using nr by (intro to_float_range) simp_all
  have hq: "0 \<le> to_float (0.5 * to_float (map_range q 0 60 0 100)) \<and>
      to_float (0.5 * to_float (map_range q 0 60 0 100)) \<le> of_int 50"
    using nq by (intro to_float_range) simp_all
  have "0 \<le> float_score r q \<and> float_score r q \<le> of_int 100"
    unfolding float_score_def using hr hq by (intro to_float_range) simp_all
  then show ?thesis by simp
qed

lemma float_score_error:
  assumes r: "\<bar>fr - r\<bar> \<le> 255 / 16777216" "\<bar>fr\<bar> \<le> 256"
    and q: "\<bar>fq - q\<bar> \<le> 128 / 16777216" "\<bar>fq\<bar> \<le> 256"
  shows "\<bar>float_score fr fq - spec_antenna_score r q\<bar> \<le> 1 / 10000"
proof -
  define nr where "nr = to_float (map_range fr 0 126 0 100)"
  define nq where "nq = to_float (map_range fq 0 60 0 100)"
  define hr where "hr = to_float (nr / 2)"
  define hq where "hq = to_float (nq / 2)"
  define sr where "sr = spec_normalize r 0 126 0 100"
  define sq where "sq = spec_normalize q 0 60 0 100"
  have "\<bar>nr - sr\<bar> \<le> 101 / 16777216 + 255 / 16777216 * 100 / 126"
    unfolding nr_def sr_def using r by (intro float_normalize_error) simp_all
  then have er: "\<bar>nr - sr\<bar> \<le> 304 / 16777216"
    by argo
  have "\<bar>nq - sq\<bar> \<le> 101 / 16777216 + 128 / 16777216 * 100 / 60"
    unfolding nq_def sq_def using q by (intro float_normalize_error) simp_all
  then have eq: "\<bar>nq - sq\<bar> \<le> 315 / 16777216"
    by argo
  have "0 \<le> nr \<and> nr \<le> of_int 100"
    unfolding nr_def by (rule to_float_range) (simp_all add: map_range_def)
  then have nr: "0 \<le> nr" "nr \<le> 100" by simp_all
  have "0 \<le> nq \<and> nq \<le> of_int 100"
    unfolding nq_def by (rule to_float_range) (simp_all add: map_range_def)
  then have nq: "0 \<le> nq" "nq \<le> 100" by simp_all
  have "\<bar>hr - nr / 2\<bar> \<le> \<bar>nr / 2\<bar> / 16777216"
    unfolding hr_def by (rule to_float_error_numeral)
  with nr have ehr: "\<bar>hr - nr / 2\<bar> \<le> 50 / 16777216"
    by argo
  have "\<bar>hq - nq / 2\<bar> \<le> \<bar>nq / 2\<bar> / 16777216"
    unfolding hq_def by (rule to_float_error_numeral)
  with nq have ehq: "\<bar>hq - nq / 2\<bar> \<le> 50 / 16777216"
    by argo
  from nr nq ehr ehq have sum: "\<bar>hr + hq\<bar> \<le> 101"
    by argo
  have "\<bar>to_float (hr + hq) - (hr + hq)\<bar> \<le> \<bar>hr + hq\<bar> / 16777216"
    by (rule to_float_error_numeral)
  with sum have es: "\<bar>to_float (hr + hq) - (hr + hq)\<bar> \<le> 101 / 16777216"
    by argo
  from er eq ehr ehq es have "\<bar>to_float (hr + hq) - (sr / 2 + sq / 2)\<bar> \<le> 1 / 10000"
    by argo
  then show ?thesis
    by (simp add: float_score_def spec_antenna_score_def hr_def hq_def nr_def nq_def sr_def sq_def)
qed


subsection \<open>The operations resolved\<close>

lemma foldl_plus_sum_list:
  fixes a :: "'a::monoid_add"
  shows "foldl (\<lambda>acc e. acc + f e) a xs = a + sum_list (map f xs)"
  by (induction xs arbitrary: a) (simp_all add: add.assoc)

lemma get_average_eq:
  "get_average now array f g s =
     ((float_mean (map f (array (cleanup_old_rssi_data now s))),
       float_mean (map g (array (cleanup_old_rssi_data now s)))),
      cleanup_old_rssi_data now s)"
  by (simp add: get_average_def float_mean_def Let_def foldl_map)

lemma get_accumulated_fec_data_eq:
  "fst (get_accumulated_fec_data now s) =
     (if m_fec_data (cleanup_old_fec_data now s) = [] then (300, 300)
      else (sum_list (map FecEntry.recovered (m_fec_data (cleanup_old_fec_data now s))),
            sum_list (map FecEntry.lost (m_fec_data (cleanup_old_fec_data now s)))))"
  by (simp add: get_accumulated_fec_data_def Let_def foldl_plus_sum_list)

lemma snd_get_accumulated_fec_data:
  "snd (get_accumulated_fec_data now s) = cleanup_old_fec_data now s"
  by (simp add: get_accumulated_fec_data_def Let_def)

lemma cleanup_fields:
  "m_snrs (cleanup_old_rssi_data now s) = m_snrs s"
  "m_fec_data (cleanup_old_rssi_data now s) = m_fec_data s"
  "m_idr_code (cleanup_old_rssi_data now s) = m_idr_code s"
  "m_rssis (cleanup_old_snr_data now s) = m_rssis s"
  "m_fec_data (cleanup_old_snr_data now s) = m_fec_data s"
  "m_idr_code (cleanup_old_snr_data now s) = m_idr_code s"
  "m_rssis (cleanup_old_fec_data now s) = m_rssis s"
  "m_snrs (cleanup_old_fec_data now s) = m_snrs s"
  "m_idr_code (cleanup_old_fec_data now s) = m_idr_code s"
  by (simp_all add: cleanup_old_rssi_data_def cleanup_old_snr_data_def cleanup_old_fec_data_def)

lemma cleanup_windows:
  "m_rssis (cleanup_old_rssi_data now s) =
     filter (\<lambda>entry. \<not> RssiEntry.timestamp entry < now - kAveragingWindow) (m_rssis s)"
  "m_snrs (cleanup_old_snr_data now s) =
     filter (\<lambda>entry. \<not> SnrEntry.timestamp entry < now - kAveragingWindow) (m_snrs s)"
  "m_fec_data (cleanup_old_fec_data now s) =
     filter (\<lambda>entry. \<not> FecEntry.timestamp entry < now - kAveragingWindow) (m_fec_data s)"
  by (simp_all add: cleanup_old_rssi_data_def cleanup_old_snr_data_def cleanup_old_fec_data_def)

lemma add_fields:
  "m_rssis (add_rssi now a1 a2 s) =
     m_rssis s @ [\<lparr>RssiEntry.timestamp = now, ant1 = a1, ant2 = a2\<rparr>]"
  "m_snrs (add_rssi now a1 a2 s) = m_snrs s"
  "m_fec_data (add_rssi now a1 a2 s) = m_fec_data s"
  "m_idr_code (add_rssi now a1 a2 s) = m_idr_code s"
  "m_rssis (add_snr now a1 a2 s) = m_rssis s"
  "m_snrs (add_snr now a1 a2 s) =
     m_snrs s @ [\<lparr>SnrEntry.timestamp = now, ant1 = a1, ant2 = a2\<rparr>]"
  "m_fec_data (add_snr now a1 a2 s) = m_fec_data s"
  "m_idr_code (add_snr now a1 a2 s) = m_idr_code s"
  "m_rssis (add_fec_data now draws p_all p_recovered p_lost s) = m_rssis s"
  "m_snrs (add_fec_data now draws p_all p_recovered p_lost s) = m_snrs s"
  "m_fec_data (add_fec_data now draws p_all p_recovered p_lost s) =
     m_fec_data s @ [\<lparr>FecEntry.timestamp = now, all = p_all, recovered = p_recovered, lost = p_lost\<rparr>]"
  "m_idr_code (add_fec_data now draws p_all p_recovered p_lost s) =
     (if 0 < p_lost then generate_random_string draws 4 else m_idr_code s)"
  by (simp_all add: add_rssi_def add_snr_def add_fec_data_def Let_def)

text \<open>The snapshot and the state it leaves, with the helper calls resolved.\<close>

lemma calculate_signal_quality_fst:
  "fst (calculate_signal_quality t1 t2 t3 t4 t5 t6 s) =
     \<lparr>lost_last_second = sint (snd (fst (get_accumulated_fec_data t3 s))),
      recovered_last_second = sint (fst (fst (get_accumulated_fec_data t3 s))),
      rssi = float_to_int (max (float_mean (map rssi_ant1 (m_rssis (cleanup_old_rssi_data t1 s))))
                               (float_mean (map rssi_ant2 (m_rssis (cleanup_old_rssi_data t1 s))))),
      snr = float_to_int (max (float_mean (map snr_ant1 (m_snrs s))) (float_mean (map snr_ant2 (m_snrs s)))),
      link_score = float_to_int
        (max (float_score (float_mean (map rssi_ant1 (m_rssis (cleanup_old_rssi_data t1 s))))
                          (float_mean (map snr_ant1 (m_snrs s))))
             (float_score (float_mean (map rssi_ant2 (m_rssis (cleanup_old_rssi_data t1 s))))
                          (float_mean (map snr_ant2 (m_snrs s))))),
      idr_code = m_idr_code s\<rparr>"
  by (simp add: calculate_signal_quality_def get_average_eq Let_def case_prod_beta
      float_score_def get_accumulated_fec_data_eq snd_get_accumulated_fec_data
      cleanup_windows(3) cleanup_fields)

lemma calculate_signal_quality_snd:
  "snd (calculate_signal_quality t1 t2 t3 t4 t5 t6 s) =
     cleanup_old_fec_data t6 (cleanup_old_snr_data t5 (cleanup_old_rssi_data t4
       (cleanup_old_fec_data t3 (cleanup_old_rssi_data t2 (cleanup_old_rssi_data t1 s)))))"
  by (simp add: calculate_signal_quality_def get_average_eq Let_def case_prod_beta
      snd_get_accumulated_fec_data)

lemma snapshot_windows:
  "m_rssis (snd (calculate_signal_quality t1 t2 t3 t4 t5 t6 s)) =
     filter (\<lambda>entry. \<not> RssiEntry.timestamp entry < t4 - kAveragingWindow)
       (filter (\<lambda>entry. \<not> RssiEntry.timestamp entry < t2 - kAveragingWindow)
         (filter (\<lambda>entry. \<not> RssiEntry.timestamp entry < t1 - kAveragingWindow) (m_rssis s)))"
  "m_snrs (snd (calculate_signal_quality t1 t2 t3 t4 t5 t6 s)) =
     filter (\<lambda>entry. \<not> SnrEntry.timestamp entry < t5 - kAveragingWindow) (m_snrs s)"
  "m_fec_data (snd (calculate_signal_quality t1 t2 t3 t4 t5 t6 s)) =
     filter (\<lambda>entry. \<not> FecEntry.timestamp entry < t6 - kAveragingWindow)
       (filter (\<lambda>entry. \<not> FecEntry.timestamp entry < t3 - kAveragingWindow) (m_fec_data s))"
  by (simp_all add: calculate_signal_quality_snd cleanup_windows cleanup_fields)

lemma snapshot_idr_code:
  "m_idr_code (snd (calculate_signal_quality t1 t2 t3 t4 t5 t6 s)) = m_idr_code s"
  by (simp add: calculate_signal_quality_snd cleanup_fields)

lemma snd_get_average: "snd (get_average now array f g s) = cleanup_old_rssi_data now s"
  by (simp add: get_average_eq)

lemma int32_of_small: "0 \<le> n \<Longrightarrow> n < 2 ^ 31 \<Longrightarrow> int32_of n = n"
  by (simp add: int32_of_def sint_sbintrunc' signed_take_bit_int_eq_self)

lemma word_of_int_sum_list:
  "word_of_int (sum_list (map fec_recovered ds)) = sum_list (map FecEntry.recovered ds)"
  "word_of_int (sum_list (map fec_lost ds)) = sum_list (map FecEntry.lost ds)"
  by (induction ds) (simp_all add: fec_recovered_def fec_lost_def)

lemma sint_sum_list:
  "sint (sum_list (map FecEntry.recovered ds)) = int32_of (sum_list (map fec_recovered ds))"
  "sint (sum_list (map FecEntry.lost ds)) = int32_of (sum_list (map fec_lost ds))"
  by (simp_all add: int32_of_def word_of_int_sum_list)

lemma generate_random_string_length: "length (generate_random_string draws n) = n"
  by (simp add: generate_random_string_def)

lemma generate_random_string_nth:
  "i < n \<Longrightarrow> generate_random_string draws n ! i = ''abcdefghijklmnopqrstuvwxyz'' ! draws i"
  by (simp add: generate_random_string_def characters_def)

lemma distinct_alphabet: "distinct ''abcdefghijklmnopqrstuvwxyz''"
  by simp

lemma perform_keeps_idr_code: "\<not> lossy x \<Longrightarrow> m_idr_code (perform x s) = m_idr_code s"
  by (cases x) (simp_all add: add_fields snapshot_idr_code snd_get_average cleanup_fields)

lemma run_keeps_idr_code:
  "\<forall>x\<in>set xs. \<not> lossy x \<Longrightarrow> m_idr_code (run xs s) = m_idr_code s"
  by (induction xs arbitrary: s) (simp_all add: perform_keeps_idr_code)

text \<open>What one operation does to each window.\<close>

lemma perform_rssis:
  "m_rssis (perform x s) = m_rssis s @ arrived_rssis [x] \<or>
   (arrived_rssis [x] = [] \<and> subseq (m_rssis (perform x s)) (m_rssis s))"
  by (cases x) (simp_all add: add_fields snapshot_windows snd_get_average cleanup_windows)

lemma perform_snrs:
  "m_snrs (perform x s) = m_snrs s @ arrived_snrs [x] \<or>
   (arrived_snrs [x] = [] \<and> subseq (m_snrs (perform x s)) (m_snrs s))"
  by (cases x) (simp_all add: add_fields snapshot_windows snd_get_average cleanup_fields)

lemma perform_fecs:
  "m_fec_data (perform x s) = m_fec_data s @ arrived_fecs [x] \<or>
   (arrived_fecs [x] = [] \<and> subseq (m_fec_data (perform x s)) (m_fec_data s))"
  by (cases x) (simp_all add: add_fields snapshot_windows snd_get_average cleanup_fields)

lemma arrived_Cons:
  "arrived_rssis (x # xs) = arrived_rssis [x] @ arrived_rssis xs"
  "arrived_snrs (x # xs) = arrived_snrs [x] @ arrived_snrs xs"
  "arrived_fecs (x # xs) = arrived_fecs [x] @ arrived_fecs xs"
  by (cases x; simp)+

lemma run_rssis: "subseq (m_rssis (run xs s)) (m_rssis s @ arrived_rssis xs)"
proof (induction xs arbitrary: s)
  case Nil
  then show ?case by simp
next
  case (Cons x xs)
  have "subseq (m_rssis (perform x s)) (m_rssis s @ arrived_rssis [x])"
    using perform_rssis [of x s] by auto
  then have "subseq (m_rssis (perform x s) @ arrived_rssis xs)
      ((m_rssis s @ arrived_rssis [x]) @ arrived_rssis xs)"
    by (intro list_emb_append_mono) simp_all
  with Cons.IH [of "perform x s"] show ?case
    by (simp add: arrived_Cons(1) [of x xs] subseq_order.order_trans)
qed

lemma run_snrs: "subseq (m_snrs (run xs s)) (m_snrs s @ arrived_snrs xs)"
proof (induction xs arbitrary: s)
  case Nil
  then show ?case by simp
next
  case (Cons x xs)
  have "subseq (m_snrs (perform x s)) (m_snrs s @ arrived_snrs [x])"
    using perform_snrs [of x s] by auto
  then have "subseq (m_snrs (perform x s) @ arrived_snrs xs)
      ((m_snrs s @ arrived_snrs [x]) @ arrived_snrs xs)"
    by (intro list_emb_append_mono) simp_all
  with Cons.IH [of "perform x s"] show ?case
    by (simp add: arrived_Cons(2) [of x xs] subseq_order.order_trans)
qed

lemma run_fecs: "subseq (m_fec_data (run xs s)) (m_fec_data s @ arrived_fecs xs)"
proof (induction xs arbitrary: s)
  case Nil
  then show ?case by simp
next
  case (Cons x xs)
  have "subseq (m_fec_data (perform x s)) (m_fec_data s @ arrived_fecs [x])"
    using perform_fecs [of x s] by auto
  then have "subseq (m_fec_data (perform x s) @ arrived_fecs xs)
      ((m_fec_data s @ arrived_fecs [x]) @ arrived_fecs xs)"
    by (intro list_emb_append_mono) simp_all
  with Cons.IH [of "perform x s"] show ?case
    by (simp add: arrived_Cons(3) [of x xs] subseq_order.order_trans)
qed

text \<open>Unfolding sets for evaluating the operations on concrete inputs.\<close>

lemmas state_defs =
  cleanup_old_rssi_data_def cleanup_old_snr_data_def cleanup_old_fec_data_def
  add_rssi_def add_snr_def add_fec_data_def initial_def kAveragingWindow_def
  generate_random_string_def characters_def

lemmas value_defs =
  float_score_def spec_mean_def spec_antenna_score_def spec_normalize_def
  map_range_def float_to_int_def rssi_ant1_def rssi_ant2_def snr_ant1_def snr_ant2_def
  fec_recovered_def fec_lost_def int32_of_def


subsection \<open>Ingestion and pruning\<close>

text \<open>
  Claim C1, as the code has it. No ingestion operation prunes: \<^verbatim>\<open>add_rssi\<close>,
  \<^verbatim>\<open>add_snr\<close> and \<^verbatim>\<open>add_fec_data\<close> each put the new sample, stamped with the
  ingestion time, after the samples their window already retains, remove none of them
  and leave the other two windows as they are. So after an ingestion call returns, every
  retained sample of that operation's window is within the window duration of the
  ingestion time exactly when every sample retained before the call was.
\<close>

theorem ingestion_appends_without_pruning:
  "m_rssis (add_rssi now a b s) =
     m_rssis s @ [\<lparr>RssiEntry.timestamp = now, ant1 = a, ant2 = b\<rparr>] \<and>
   m_snrs (add_rssi now a b s) = m_snrs s \<and>
   m_fec_data (add_rssi now a b s) = m_fec_data s \<and>
   m_snrs (add_snr now c d s) =
     m_snrs s @ [\<lparr>SnrEntry.timestamp = now, ant1 = c, ant2 = d\<rparr>] \<and>
   m_rssis (add_snr now c d s) = m_rssis s \<and>
   m_fec_data (add_snr now c d s) = m_fec_data s \<and>
   m_fec_data (add_fec_data now draws p_all p_recovered p_lost s) =
     m_fec_data s @ [\<lparr>FecEntry.timestamp = now, all = p_all, recovered = p_recovered, lost = p_lost\<rparr>] \<and>
   m_rssis (add_fec_data now draws p_all p_recovered p_lost s) = m_rssis s \<and>
   m_snrs (add_fec_data now draws p_all p_recovered p_lost s) = m_snrs s \<and>
   ((\<forall>entry \<in> set (m_rssis (add_rssi now a b s)).
        now - kAveragingWindow \<le> RssiEntry.timestamp entry) \<longleftrightarrow>
    (\<forall>entry \<in> set (m_rssis s). now - kAveragingWindow \<le> RssiEntry.timestamp entry)) \<and>
   ((\<forall>entry \<in> set (m_snrs (add_snr now c d s)).
        now - kAveragingWindow \<le> SnrEntry.timestamp entry) \<longleftrightarrow>
    (\<forall>entry \<in> set (m_snrs s). now - kAveragingWindow \<le> SnrEntry.timestamp entry)) \<and>
   ((\<forall>entry \<in> set (m_fec_data (add_fec_data now draws p_all p_recovered p_lost s)).
        now - kAveragingWindow \<le> FecEntry.timestamp entry) \<longleftrightarrow>
    (\<forall>entry \<in> set (m_fec_data s). now - kAveragingWindow \<le> FecEntry.timestamp entry))"
  by (simp add: add_fields kAveragingWindow_def)

theorem ingestion_appends_without_pruning_witness:
  "m_rssis (add_rssi 500000000 2 2 (add_rssi 0 7 7 initial)) =
     [\<lparr>RssiEntry.timestamp = 0, ant1 = 7, ant2 = 7\<rparr>,
      \<lparr>RssiEntry.timestamp = 500000000, ant1 = 2, ant2 = 2\<rparr>] \<and>
   m_snrs (add_rssi 500000000 2 2 (add_rssi 0 7 7 initial)) = [] \<and>
   m_fec_data (add_rssi 500000000 2 2 (add_rssi 0 7 7 initial)) = [] \<and>
   500000000 - kAveragingWindow \<le> (0 :: int)"
proof -
  have before: "m_rssis (add_rssi 0 7 7 initial) = [\<lparr>RssiEntry.timestamp = 0, ant1 = 7, ant2 = 7\<rparr>]"
    "m_snrs (add_rssi 0 7 7 initial) = []" "m_fec_data (add_rssi 0 7 7 initial) = []"
    by (simp_all add: state_defs)
  from ingestion_appends_without_pruning [where now = 500000000 and a = 2 and b = 2
      and c = 3 and d = 3 and draws = Suc and p_all = 10 and p_recovered = 2 and p_lost = 0
      and s = "add_rssi 0 7 7 initial"] before
  show ?thesis by (simp add: kAveragingWindow_def)
qed

text \<open>
  Claim C1 as stated fails: a sample recorded at time 0 is still the first of its window
  after an ingestion at 5 s, four seconds past the window duration, in each of the three
  streams.
\<close>

theorem ingestion_keeps_expired_samples:
  "RssiEntry.timestamp (hd (m_rssis (add_rssi 5000000000 2 2 (add_rssi 0 7 7 initial))))
     < 5000000000 - kAveragingWindow \<and>
   SnrEntry.timestamp (hd (m_snrs (add_snr 5000000000 2 2 (add_snr 0 7 7 initial))))
     < 5000000000 - kAveragingWindow \<and>
   FecEntry.timestamp (hd (m_fec_data (add_fec_data 5000000000 id 9 1 0 (add_fec_data 0 id 9 1 0 initial))))
     < 5000000000 - kAveragingWindow"
  by (simp add: state_defs)

subsection \<open>Stale samples\<close>

text \<open>
  The RSSI window is pruned before it is averaged: when every retained RSSI sample is
  older than the window duration, the snapshot reports the empty-window value 0.
\<close>

lemma stale_rssi_reports_zero:
  assumes "\<forall>entry \<in> set (m_rssis s). RssiEntry.timestamp entry < t1 - kAveragingWindow"
  shows "rssi (fst (calculate_signal_quality t1 t2 t3 t4 t5 t6 s)) = 0"
proof -
  from assms have "m_rssis (cleanup_old_rssi_data t1 s) = []"
    by (simp add: cleanup_windows filter_empty_conv)
  then show ?thesis
    by (simp add: calculate_signal_quality_fst float_mean_Nil float_to_int_def)
qed

text \<open>
  Claim C2 at an input where the code falls short of it. \<^verbatim>\<open>get_average(m_snrs)\<close>
  prunes the RSSI window, not the SNR window, so the SNR means are taken over every SNR
  sample still stored. Two SNR samples recorded at 0 and at 1 ms, (10,10) and (20,20),
  both contribute to a snapshot taken at 5 s, long after they have expired: the reported
  snr is their mean 15.
\<close>

theorem stale_snr_samples_contribute:
  "snr (fst (calculate_signal_quality 5000000000 5000000000 5000000000 5000000000 5000000000
     5000000000 (add_snr 1000000 20 20 (add_snr 0 10 10 initial)))) = 15 \<and>
   (1000000 :: int) < 5000000000 - kAveragingWindow"
proof -
  let ?s = "add_snr 1000000 20 20 (add_snr 0 10 10 initial)"
  have snrs: "map snr_ant1 (m_snrs ?s) = [10, 20]" "map snr_ant2 (m_snrs ?s) = [10, 20]"
    by (simp_all add: add_snr_def initial_def snr_ant1_def snr_ant2_def)
  have mean: "float_mean [10, 20] = 15"
    by (simp add: float_mean_def size_to_int_small to_float_numeral)
  show ?thesis
    by (simp add: calculate_signal_quality_fst snrs mean float_to_int_def kAveragingWindow_def)
qed

subsection \<open>The FEC counters\<close>

text \<open>
  Claim C3, as the code has it. When the FEC window is empty after the pruning of
  \<^verbatim>\<open>get_accumulated_fec_data\<close>, both counters of the snapshot are 300; otherwise each is
  the sum of that counter over the retained FEC samples, reduced modulo \<open>2^32\<close> and read
  as a signed 32-bit integer, which is the sum itself whenever the sum is below \<open>2^31\<close>.
\<close>

theorem fec_counters_of_snapshot:
  "(m_fec_data (cleanup_old_fec_data tc s) = [] \<longrightarrow>
      recovered_last_second (fst (calculate_signal_quality ta tb tc td te tf s)) = 300 \<and>
      lost_last_second (fst (calculate_signal_quality ta tb tc td te tf s)) = 300) \<and>
   (m_fec_data (cleanup_old_fec_data tc s) \<noteq> [] \<longrightarrow>
      recovered_last_second (fst (calculate_signal_quality ta tb tc td te tf s)) =
        int32_of (sum_list (map fec_recovered (m_fec_data (cleanup_old_fec_data tc s)))) \<and>
      lost_last_second (fst (calculate_signal_quality ta tb tc td te tf s)) =
        int32_of (sum_list (map fec_lost (m_fec_data (cleanup_old_fec_data tc s))))) \<and>
   (0 \<le> n \<and> n < 2 ^ 31 \<longrightarrow> int32_of n = n)"
  by (simp add: calculate_signal_quality_fst get_accumulated_fec_data_eq sint_sum_list
      int32_of_small)

theorem fec_counters_of_snapshot_witness:
  "recovered_last_second (fst (calculate_signal_quality 5000000000 5000000000 5000000000
     5000000000 5000000000 5000000000 (add_fec_data 0 id 12 3 0 initial))) = 300 \<and>
   lost_last_second (fst (calculate_signal_quality 5000000000 5000000000 5000000000
     5000000000 5000000000 5000000000 (add_fec_data 0 id 12 3 0 initial))) = 300 \<and>
   recovered_last_second (fst (calculate_signal_quality 1000 1000 1000 1000 1000 1000
     (add_fec_data 20 id 12 4 2 (add_fec_data 10 id 12 3 1 initial)))) = 7 \<and>
   lost_last_second (fst (calculate_signal_quality 1000 1000 1000 1000 1000 1000
     (add_fec_data 20 id 12 4 2 (add_fec_data 10 id 12 3 1 initial)))) = 3 \<and>
   int32_of 7 = 7"
proof -
  have expired: "m_fec_data (cleanup_old_fec_data 5000000000 (add_fec_data 0 id 12 3 0 initial)) = []"
    by (simp add: state_defs)
  have retained: "m_fec_data (cleanup_old_fec_data 1000
      (add_fec_data 20 id 12 4 2 (add_fec_data 10 id 12 3 1 initial))) =
      [\<lparr>FecEntry.timestamp = 10, all = 12, recovered = 3, lost = 1\<rparr>,
       \<lparr>FecEntry.timestamp = 20, all = 12, recovered = 4, lost = 2\<rparr>]"
    by (simp add: state_defs)
  have small: "(0::int) \<le> 7 \<and> (7::int) < 2 ^ 31" "(0::int) \<le> 3 \<and> (3::int) < 2 ^ 31"
    by simp_all
  from fec_counters_of_snapshot [where s = "add_fec_data 0 id 12 3 0 initial"
      and tc = 5000000000 and n = 7]
    fec_counters_of_snapshot [where s = "add_fec_data 20 id 12 4 2 (add_fec_data 10 id 12 3 1 initial)"
      and tc = 1000 and n = 3]
    expired retained small
  show ?thesis by (simp add: fec_recovered_def fec_lost_def)
qed

text \<open>
  Claim C3 as stated fails: with two retained FEC samples of \<open>2^31\<close> lost blocks each,
  whose sum is \<open>2^32\<close>, the snapshot reports 0 lost blocks.
\<close>

theorem fec_sum_wraps:
  "m_fec_data (cleanup_old_fec_data 1000
     (add_fec_data 20 id 0 0 2147483648 (add_fec_data 10 id 0 0 2147483648 initial))) \<noteq> [] \<and>
   lost_last_second (fst (calculate_signal_quality 1000 1000 1000 1000 1000 1000
     (add_fec_data 20 id 0 0 2147483648 (add_fec_data 10 id 0 0 2147483648 initial)))) = 0 \<and>
   sum_list (map fec_lost (m_fec_data (cleanup_old_fec_data 1000
     (add_fec_data 20 id 0 0 2147483648 (add_fec_data 10 id 0 0 2147483648 initial))))) = 4294967296"
proof -
  have retained: "m_fec_data (cleanup_old_fec_data 1000
      (add_fec_data 20 id 0 0 2147483648 (add_fec_data 10 id 0 0 2147483648 initial))) =
      [\<lparr>FecEntry.timestamp = 10, all = 0, recovered = 0, lost = 2147483648\<rparr>,
       \<lparr>FecEntry.timestamp = 20, all = 0, recovered = 0, lost = 2147483648\<rparr>]"
    by (simp add: state_defs)
  then show ?thesis
    by (simp add: calculate_signal_quality_fst get_accumulated_fec_data_eq fec_lost_def)
qed

subsection \<open>The session identifier\<close>

text \<open>
  Claim C7, as the code has it. Only the ingestion of an FEC sample with \<open>lost > 0\<close>
  writes the session identifier: \<^verbatim>\<open>add_rssi\<close>, \<^verbatim>\<open>add_snr\<close>,
  \<^verbatim>\<open>calculate_signal_quality\<close>, \<^verbatim>\<open>get_average\<close> and \<^verbatim>\<open>add_fec_data\<close> with
  \<open>lost = 0\<close> leave it as it is, and every \<^verbatim>\<open>add_fec_data\<close> with \<open>lost > 0\<close>
  overwrites it, whatever it was and however large \<open>lost\<close> is, with a string of 4
  lowercase letters whose \<open>i\<close>-th character is the letter of the alphabet at the
  \<open>i\<close>-th index the generator draws, the indices being drawn from 0 to 25. Two such
  ingestions leave the same identifier exactly when their four draws agree, so the new
  identifier need not differ from the one it replaces.
\<close>

theorem session_id_mutation:
  assumes "\<forall>i<4. draws i < 26" and "\<forall>i<4. draws' i < 26"
  shows "m_idr_code (add_rssi now a b s) = m_idr_code s \<and>
    m_idr_code (add_snr now c d s) = m_idr_code s \<and>
    m_idr_code (snd (calculate_signal_quality ta tb tc td te tf s)) = m_idr_code s \<and>
    m_idr_code (snd (get_average now array f g s)) = m_idr_code s \<and>
    m_idr_code (add_fec_data now draws p_all p_recovered 0 s) = m_idr_code s \<and>
    (0 < p_lost \<longrightarrow>
       length (m_idr_code (add_fec_data now draws p_all p_recovered p_lost s)) = 4 \<and>
       (\<forall>i<4. m_idr_code (add_fec_data now draws p_all p_recovered p_lost s) ! i =
          ''abcdefghijklmnopqrstuvwxyz'' ! draws i) \<and>
       set (m_idr_code (add_fec_data now draws p_all p_recovered p_lost s))
         \<subseteq> set ''abcdefghijklmnopqrstuvwxyz'') \<and>
    (0 < p_lost \<and> 0 < p_lost' \<longrightarrow>
       (m_idr_code (add_fec_data now draws p_all p_recovered p_lost s) =
        m_idr_code (add_fec_data now' draws' p_all' p_recovered' p_lost' s')) =
       (\<forall>i<4. draws i = draws' i))"
proof -
  let ?abc = "''abcdefghijklmnopqrstuvwxyz''"
  have len: "length ?abc = 26" by simp
  have unchanged: "m_idr_code (add_rssi now a b s) = m_idr_code s"
    "m_idr_code (add_snr now c d s) = m_idr_code s"
    "m_idr_code (snd (calculate_signal_quality ta tb tc td te tf s)) = m_idr_code s"
    "m_idr_code (snd (get_average now array f g s)) = m_idr_code s"
    "m_idr_code (add_fec_data now draws p_all p_recovered 0 s) = m_idr_code s"
    by (simp_all add: add_fields snapshot_idr_code snd_get_average cleanup_fields)
  have nth: "generate_random_string draws 4 ! i = ?abc ! draws i" if "i < 4" for i
    using that by (rule generate_random_string_nth)
  have nth': "generate_random_string draws' 4 ! i = ?abc ! draws' i" if "i < 4" for i
    using that by (rule generate_random_string_nth)
  have letters: "set (generate_random_string draws 4) \<subseteq> set ?abc"
  proof
    fix x assume "x \<in> set (generate_random_string draws 4)"
    then obtain i where i: "i < 4" and x: "x = generate_random_string draws 4 ! i"
      by (auto simp: in_set_conv_nth generate_random_string_length)
    from i assms(1) have "draws i < length ?abc" by (simp only: len)
    then have "?abc ! draws i \<in> set ?abc" by (rule nth_mem)
    with i x show "x \<in> set ?abc" by (simp only: nth)
  qed
  have same: "(generate_random_string draws 4 = generate_random_string draws' 4) =
      (\<forall>i<4. draws i = draws' i)"
  proof -
    have "(generate_random_string draws 4 = generate_random_string draws' 4) =
        (\<forall>i<4. ?abc ! draws i = ?abc ! draws' i)"
      by (auto simp: list_eq_iff_nth_eq generate_random_string_length nth nth')
    also have "\<dots> = (\<forall>i<4. draws i = draws' i)"
    proof (intro all_cong1 imp_cong refl)
      fix i :: nat assume "i < 4"
      with assms have "draws i < length ?abc" "draws' i < length ?abc"
        by (simp_all only: len)
      then show "(?abc ! draws i = ?abc ! draws' i) = (draws i = draws' i)"
        using distinct_alphabet by (rule nth_eq_iff_index_eq [rotated])
    qed
    finally show ?thesis .
  qed
  from unchanged nth letters same show ?thesis
    by (simp add: add_fields generate_random_string_length)
qed

theorem session_id_mutation_witness:
  "Suc 0 < 26 \<and> Suc 1 < 26 \<and> Suc 2 < 26 \<and> Suc 3 < 26 \<and>
   m_idr_code (add_fec_data 0 Suc 10 2 0 initial) = ''aaaa'' \<and>
   m_idr_code (add_fec_data 0 Suc 10 2 5 initial) = ''bcde''"
proof -
  have range: "\<forall>i<4. Suc i < (26::nat)"
    by simp
  have drawn: "generate_random_string Suc 4 = ''bcde''"
    by (simp add: generate_random_string_def characters_def upt_rec)
  have start: "m_idr_code initial = ''aaaa''"
    by (simp add: initial_def)
  have regenerated: "m_idr_code (add_fec_data 0 Suc 10 2 5 initial) = generate_random_string Suc 4"
    by (simp add: add_fields)
  from session_id_mutation [OF range range, where now = 0 and p_all = 10 and p_recovered = 2
      and p_lost = 5 and s = initial and a = 1 and b = 1 and c = 1 and d = 1
      and ta = 1 and tb = 1 and tc = 1 and td = 1 and te = 1 and tf = 1
      and array = m_rssis and f = rssi_ant1 and g = rssi_ant2
      and now' = 0 and p_all' = 10 and p_recovered' = 2 and p_lost' = 5 and s' = initial]
    range drawn start regenerated
  show ?thesis by simp
qed

text \<open>
  Claim C7 as stated fails: a lossy FEC ingestion whose generator draws the letters the
  identifier already has leaves it unchanged. After one lossy ingestion drawing the
  indices 1, 2, 3, 4 the identifier is "bcde", and a second lossy ingestion drawing the
  same indices does not change it.
\<close>

theorem lossy_ingestion_keeps_identifier:
  "m_idr_code (add_fec_data 7 Suc 10 2 5 (add_fec_data 0 Suc 10 2 5 initial)) =
     m_idr_code (add_fec_data 0 Suc 10 2 5 initial) \<and>
   (0 :: 32 word) < 5"
  by (simp add: add_fields)

text \<open>
  Claim C10. The session identifier of a new calculator is "aaaa", and after any
  history of operations without an FEC ingestion with \<open>lost > 0\<close> it still is, so a
  snapshot taken then reports "aaaa".
\<close>

theorem initial_session_id:
  assumes "\<forall>x \<in> set xs. \<not> lossy x"
  shows "m_idr_code initial = ''aaaa'' \<and>
    m_idr_code (run xs initial) = ''aaaa'' \<and>
    idr_code (fst (calculate_signal_quality ta tb tc td te tf (run xs initial))) = ''aaaa''"
proof -
  have start: "m_idr_code initial = ''aaaa''"
    by (simp add: initial_def)
  from assms have "m_idr_code (run xs initial) = m_idr_code initial"
    by (rule run_keeps_idr_code)
  with start show ?thesis
    by (simp add: calculate_signal_quality_fst)
qed

theorem initial_session_id_witness:
  "\<not> lossy (Add_rssi 0 1 2) \<and> \<not> lossy (Add_fec_data 5 id 10 1 0) \<and>
   \<not> lossy (Calculate_signal_quality 6 6 6 6 6 6) \<and> \<not> lossy (Add_snr 7 3 4) \<and>
   idr_code (fst (calculate_signal_quality 9 9 9 9 9 9
     (run [Add_rssi 0 1 2, Add_fec_data 5 id 10 1 0,
       Calculate_signal_quality 6 6 6 6 6 6, Add_snr 7 3 4] initial))) = ''aaaa''"
proof -
  have quiet: "\<forall>x \<in> set [Add_rssi 0 1 2, Add_fec_data 5 id 10 1 0,
      Calculate_signal_quality 6 6 6 6 6 6, Add_snr 7 3 4]. \<not> lossy x"
    by simp
  from initial_session_id [OF quiet, where ta = 9 and tb = 9 and tc = 9 and td = 9
      and te = 9 and tf = 9]
  show ?thesis by simp
qed

subsection \<open>Arrival order\<close>

text \<open>
  Claim C8. Each of the three windows keeps its samples in arrival order under every
  operation. An ingestion puts the new sample at the end of its own window and leaves the
  other two windows as they are; each cleanup leaves a subsequence of its own window,
  the survivors in their order, and leaves the other two as they are; the snapshot
  leaves a subsequence of each window, and \<^verbatim>\<open>get_average\<close> a subsequence of the RSSI
  window and the other two unchanged. So after any history of operations each window
  is a subsequence of what it held at the start followed by the samples the history
  ingested into it, in the order of their arrival.
\<close>

theorem arrival_order_retained:
  "m_rssis (add_rssi now a b s) =
     m_rssis s @ [\<lparr>RssiEntry.timestamp = now, ant1 = a, ant2 = b\<rparr>] \<and>
   m_snrs (add_rssi now a b s) = m_snrs s \<and>
   m_fec_data (add_rssi now a b s) = m_fec_data s \<and>
   m_rssis (add_snr now c d s) = m_rssis s \<and>
   m_snrs (add_snr now c d s) =
     m_snrs s @ [\<lparr>SnrEntry.timestamp = now, ant1 = c, ant2 = d\<rparr>] \<and>
   m_fec_data (add_snr now c d s) = m_fec_data s \<and>
   m_rssis (add_fec_data now draws p_all p_recovered p_lost s) = m_rssis s \<and>
   m_snrs (add_fec_data now draws p_all p_recovered p_lost s) = m_snrs s \<and>
   m_fec_data (add_fec_data now draws p_all p_recovered p_lost s) =
     m_fec_data s @ [\<lparr>FecEntry.timestamp = now, all = p_all, recovered = p_recovered, lost = p_lost\<rparr>] \<and>
   subseq (m_rssis (cleanup_old_rssi_data now s)) (m_rssis s) \<and>
   m_snrs (cleanup_old_rssi_data now s) = m_snrs s \<and>
   m_fec_data (cleanup_old_rssi_data now s) = m_fec_data s \<and>
   m_rssis (cleanup_old_snr_data now s) = m_rssis s \<and>
   subseq (m_snrs (cleanup_old_snr_data now s)) (m_snrs s) \<and>
   m_fec_data (cleanup_old_snr_data now s) = m_fec_data s \<and>
   m_rssis (cleanup_old_fec_data now s) = m_rssis s \<and>
   m_snrs (cleanup_old_fec_data now s) = m_snrs s \<and>
   subseq (m_fec_data (cleanup_old_fec_data now s)) (m_fec_data s) \<and>
   subseq (m_rssis (snd (calculate_signal_quality ta tb tc td te tf s))) (m_rssis s) \<and>
   subseq (m_snrs (snd (calculate_signal_quality ta tb tc td te tf s))) (m_snrs s) \<and>
   subseq (m_fec_data (snd (calculate_signal_quality ta tb tc td te tf s))) (m_fec_data s) \<and>
   subseq (m_rssis (snd (get_average now array f g s))) (m_rssis s) \<and>
   m_snrs (snd (get_average now array f g s)) = m_snrs s \<and>
   m_fec_data (snd (get_average now array f g s)) = m_fec_data s \<and>
   subseq (m_rssis (run xs s)) (m_rssis s @ arrived_rssis xs) \<and>
   subseq (m_snrs (run xs s)) (m_snrs s @ arrived_snrs xs) \<and>
   subseq (m_fec_data (run xs s)) (m_fec_data s @ arrived_fecs xs)"
proof -
  have pruned: "subseq (m_rssis (cleanup_old_rssi_data now s)) (m_rssis s)"
    "subseq (m_snrs (cleanup_old_snr_data now s)) (m_snrs s)"
    "subseq (m_fec_data (cleanup_old_fec_data now s)) (m_fec_data s)"
    by (simp_all add: cleanup_windows)
  have snapshot: "subseq (m_rssis (snd (calculate_signal_quality ta tb tc td te tf s))) (m_rssis s)"
    "subseq (m_snrs (snd (calculate_signal_quality ta tb tc td te tf s))) (m_snrs s)"
    "subseq (m_fec_data (snd (calculate_signal_quality ta tb tc td te tf s))) (m_fec_data s)"
    by (simp_all add: snapshot_windows)
  have average: "subseq (m_rssis (snd (get_average now array f g s))) (m_rssis s)"
    "m_snrs (snd (get_average now array f g s)) = m_snrs s"
    "m_fec_data (snd (get_average now array f g s)) = m_fec_data s"
    by (simp_all add: snd_get_average cleanup_windows cleanup_fields)
  from pruned snapshot average run_rssis [of xs s] run_snrs [of xs s] run_fecs [of xs s]
  show ?thesis
    by (simp add: add_fields cleanup_fields)
qed


subsection \<open>The signal fields\<close>

lemma antenna_values:
  "rssi_ant1 = (\<lambda>entry. of_int (uint (RssiEntry.ant1 entry)))"
  "rssi_ant2 = (\<lambda>entry. of_int (uint (RssiEntry.ant2 entry)))"
  "snr_ant1 = (\<lambda>entry. of_int (sint (SnrEntry.ant1 entry)))"
  "snr_ant2 = (\<lambda>entry. of_int (sint (SnrEntry.ant2 entry)))"
  by (simp_all add: fun_eq_iff rssi_ant1_def rssi_ant2_def snr_ant1_def snr_ant2_def)

lemma uint8_bound: "\<bar>uint (w :: 8 word)\<bar> \<le> 255"
  using uint_lt2p [of w] uint_ge_0 [of w] by simp

lemma sint8_bound: "\<bar>sint (w :: 8 word)\<bar> \<le> 128"
  using sint_lt [of w] sint_ge [of w] by simp

lemma sint8_bound_255: "\<bar>sint (w :: 8 word)\<bar> \<le> 255"
  using sint8_bound [of w] by linarith

lemma antenna_mean_trunc:
  "length rs \<le> 65536 \<Longrightarrow>
     float_to_int (float_mean (map rssi_ant1 rs)) = float_to_int (spec_mean (map rssi_ant1 rs))"
  "length rs \<le> 65536 \<Longrightarrow>
     float_to_int (float_mean (map rssi_ant2 rs)) = float_to_int (spec_mean (map rssi_ant2 rs))"
  "length ss \<le> 65536 \<Longrightarrow>
     float_to_int (float_mean (map snr_ant1 ss)) = float_to_int (spec_mean (map snr_ant1 ss))"
  "length ss \<le> 65536 \<Longrightarrow>
     float_to_int (float_mean (map snr_ant2 ss)) = float_to_int (spec_mean (map snr_ant2 ss))"
  unfolding antenna_values
  by (rule float_mean_trunc, assumption, rule uint8_bound sint8_bound_255)+

lemma antenna_mean_error:
  "length rs \<le> 65536 \<Longrightarrow>
     \<bar>float_mean (map rssi_ant1 rs) - spec_mean (map rssi_ant1 rs)\<bar> \<le> 255 / 16777216"
  "length rs \<le> 65536 \<Longrightarrow>
     \<bar>float_mean (map rssi_ant2 rs) - spec_mean (map rssi_ant2 rs)\<bar> \<le> 255 / 16777216"
  "length ss \<le> 65536 \<Longrightarrow>
     \<bar>float_mean (map snr_ant1 ss) - spec_mean (map snr_ant1 ss)\<bar> \<le> 128 / 16777216"
  "length ss \<le> 65536 \<Longrightarrow>
     \<bar>float_mean (map snr_ant2 ss) - spec_mean (map snr_ant2 ss)\<bar> \<le> 128 / 16777216"
  unfolding antenna_values
  using float_mean_error [of rs "\<lambda>entry. uint (RssiEntry.ant1 entry)" 255, OF _ uint8_bound]
    float_mean_error [of rs "\<lambda>entry. uint (RssiEntry.ant2 entry)" 255, OF _ uint8_bound]
    float_mean_error [of ss "\<lambda>entry. sint (SnrEntry.ant1 entry)" 128, OF _ sint8_bound]
    float_mean_error [of ss "\<lambda>entry. sint (SnrEntry.ant2 entry)" 128, OF _ sint8_bound]
  by simp_all

lemma antenna_mean_bound:
  "\<bar>spec_mean (map rssi_ant1 rs)\<bar> \<le> 255"
  "\<bar>spec_mean (map rssi_ant2 rs)\<bar> \<le> 255"
  "\<bar>spec_mean (map snr_ant1 ss)\<bar> \<le> 128"
  "\<bar>spec_mean (map snr_ant2 ss)\<bar> \<le> 128"
  unfolding antenna_values
  using spec_mean_bound [of "\<lambda>entry. uint (RssiEntry.ant1 entry)" 255 rs, OF uint8_bound]
    spec_mean_bound [of "\<lambda>entry. uint (RssiEntry.ant2 entry)" 255 rs, OF uint8_bound]
    spec_mean_bound [of "\<lambda>entry. sint (SnrEntry.ant1 entry)" 128 ss, OF sint8_bound]
    spec_mean_bound [of "\<lambda>entry. sint (SnrEntry.ant2 entry)" 128 ss, OF sint8_bound]
  by simp_all

text \<open>
  Claim C4, as the code has it. The \<^verbatim>\<open>rssi\<close> field of the snapshot is the greater of
  the two per-antenna means of the raw RSSI values over the RSSI samples retained after
  the pruning of \<^verbatim>\<open>get_average\<close>, truncated towards zero to an integer, and the
  \<^verbatim>\<open>snr\<close> field is the greater of the two per-antenna means of the raw SNR values over
  the retained SNR samples, truncated likewise. The means are those of \<^verbatim>\<open>get_average\<close>,
  summed and divided in single precision; on a window of at most 65536 samples the field
  is exactly the greater of the two exact means truncated towards zero. An empty window
  has mean 0.
\<close>

theorem raw_rssi_snr_of_snapshot:
  "rssi (fst (calculate_signal_quality ta tb tc td te tf s)) =
     float_to_int (max (float_mean (map rssi_ant1 (m_rssis (cleanup_old_rssi_data ta s))))
                       (float_mean (map rssi_ant2 (m_rssis (cleanup_old_rssi_data ta s))))) \<and>
   snr (fst (calculate_signal_quality ta tb tc td te tf s)) =
     float_to_int (max (float_mean (map snr_ant1 (m_snrs s))) (float_mean (map snr_ant2 (m_snrs s)))) \<and>
   (length (m_rssis (cleanup_old_rssi_data ta s)) \<le> 65536 \<longrightarrow>
      rssi (fst (calculate_signal_quality ta tb tc td te tf s)) =
        float_to_int (max (spec_mean (map rssi_ant1 (m_rssis (cleanup_old_rssi_data ta s))))
                          (spec_mean (map rssi_ant2 (m_rssis (cleanup_old_rssi_data ta s)))))) \<and>
   (length (m_snrs s) \<le> 65536 \<longrightarrow>
      snr (fst (calculate_signal_quality ta tb tc td te tf s)) =
        float_to_int (max (spec_mean (map snr_ant1 (m_snrs s))) (spec_mean (map snr_ant2 (m_snrs s))))) \<and>
   float_mean [] = 0 \<and> spec_mean [] = 0"
proof -
  have float: "rssi (fst (calculate_signal_quality ta tb tc td te tf s)) =
      float_to_int (max (float_mean (map rssi_ant1 (m_rssis (cleanup_old_rssi_data ta s))))
                        (float_mean (map rssi_ant2 (m_rssis (cleanup_old_rssi_data ta s)))))"
    "snr (fst (calculate_signal_quality ta tb tc td te tf s)) =
      float_to_int (max (float_mean (map snr_ant1 (m_snrs s))) (float_mean (map snr_ant2 (m_snrs s))))"
    by (simp_all add: calculate_signal_quality_fst)
  have exact_rssi: "rssi (fst (calculate_signal_quality ta tb tc td te tf s)) =
      float_to_int (max (spec_mean (map rssi_ant1 (m_rssis (cleanup_old_rssi_data ta s))))
                        (spec_mean (map rssi_ant2 (m_rssis (cleanup_old_rssi_data ta s)))))"
    if "length (m_rssis (cleanup_old_rssi_data ta s)) \<le> 65536"
    using that by (simp add: float float_to_int_max antenna_mean_trunc)
  have exact_snr: "snr (fst (calculate_signal_quality ta tb tc td te tf s)) =
      float_to_int (max (spec_mean (map snr_ant1 (m_snrs s))) (spec_mean (map snr_ant2 (m_snrs s))))"
    if "length (m_snrs s) \<le> 65536"
    using that by (simp add: float float_to_int_max antenna_mean_trunc)
  have empty: "float_mean [] = 0" "spec_mean [] = 0"
    by (simp_all add: float_mean_Nil spec_mean_def)
  from float exact_rssi exact_snr empty show ?thesis
    by blast
qed

theorem raw_rssi_snr_of_snapshot_witness:
  "rssi (fst (calculate_signal_quality 1000 1000 1000 1000 1000 1000
     (add_snr 30 9 (- 4) (add_snr 20 12 (- 3) (add_rssi 10 2 40 (add_rssi 0 1 50 initial)))))) = 45 \<and>
   snr (fst (calculate_signal_quality 1000 1000 1000 1000 1000 1000
     (add_snr 30 9 (- 4) (add_snr 20 12 (- 3) (add_rssi 10 2 40 (add_rssi 0 1 50 initial)))))) = 10"
proof -
  let ?s = "add_snr 30 9 (- 4) (add_snr 20 12 (- 3) (add_rssi 10 2 40 (add_rssi 0 1 50 initial)))"
  have rssis: "m_rssis (cleanup_old_rssi_data 1000 ?s) =
      [\<lparr>RssiEntry.timestamp = 0, ant1 = 1, ant2 = 50\<rparr>,
       \<lparr>RssiEntry.timestamp = 10, ant1 = 2, ant2 = 40\<rparr>]"
    by (simp add: state_defs)
  have snrs: "m_snrs ?s =
      [\<lparr>SnrEntry.timestamp = 20, ant1 = 12, ant2 = - 3\<rparr>,
       \<lparr>SnrEntry.timestamp = 30, ant1 = 9, ant2 = - 4\<rparr>]"
    by (simp add: state_defs)
  have means: "spec_mean [1, 2] = 3 / 2" "spec_mean [50, 40] = 45"
    "spec_mean [12, 9] = 21 / 2" "spec_mean [- 3, - 4] = - (7 / 2)"
    by (simp_all add: spec_mean_def)
  from raw_rssi_snr_of_snapshot [where ta = 1000 and tb = 1000 and tc = 1000 and td = 1000
      and te = 1000 and tf = 1000 and s = ?s] rssis snrs
  have "rssi (fst (calculate_signal_quality 1000 1000 1000 1000 1000 1000 ?s)) =
      float_to_int (max (spec_mean [1, 2]) (spec_mean [50, 40])) \<and>
    snr (fst (calculate_signal_quality 1000 1000 1000 1000 1000 1000 ?s)) =
      float_to_int (max (spec_mean [12, 9]) (spec_mean [- 3, - 4]))"
    by (simp add: rssi_ant1_def rssi_ant2_def snr_ant1_def snr_ant2_def)
  then show ?thesis
    by (simp add: means float_to_int_def)
qed

text \<open>
  Claim C4 as stated fails: with the RSSI samples (1,0) and (2,0) retained, the greater
  mean is 3/2 and the snapshot reports rssi = 1.
\<close>

theorem raw_rssi_is_truncated:
  "rssi (fst (calculate_signal_quality 1000 1000 1000 1000 1000 1000
     (add_rssi 10 2 0 (add_rssi 0 1 0 initial)))) = 1 \<and>
   max (spec_mean (map rssi_ant1 (m_rssis (cleanup_old_rssi_data 1000
          (add_rssi 10 2 0 (add_rssi 0 1 0 initial))))))
       (spec_mean (map rssi_ant2 (m_rssis (cleanup_old_rssi_data 1000
          (add_rssi 10 2 0 (add_rssi 0 1 0 initial)))))) = 3 / 2"
proof -
  have rssis: "m_rssis (cleanup_old_rssi_data 1000 (add_rssi 10 2 0 (add_rssi 0 1 0 initial))) =
      [\<lparr>RssiEntry.timestamp = 0, ant1 = 1, ant2 = 0\<rparr>,
       \<lparr>RssiEntry.timestamp = 10, ant1 = 2, ant2 = 0\<rparr>]"
    by (simp add: state_defs)
  have half: "to_float (3 / 2) = 3 / 2"
    by (simp add: float_eval)
  have means: "float_mean [1, 2] = 3 / 2" "float_mean [0, 0] = 0"
    by (simp_all add: float_mean_def size_to_int_small to_float_numeral half)
  show ?thesis
    by (simp add: calculate_signal_quality_fst rssis rssi_ant1_def rssi_ant2_def means
        spec_mean_def float_to_int_def)
qed

subsection \<open>The link score\<close>

text \<open>
  Claim C5, as the code has it. The \<^verbatim>\<open>link_score\<close> field of the snapshot is the
  greater of the two antennas' blended scores, 0.5 * normalised RSSI mean + 0.5 * normalised
  SNR mean, computed in floating point (the means and the blend in single precision, the
  normalisation in double precision) and truncated towards zero to an integer, and it
  always lies between 0 and 100. When both windows hold at most 65536 samples, the
  floating-point maximum is within 1/10000 of the exact one, so the field is greater than
  the exact maximum - 1 - 1/10000 and at most the exact maximum + 1/10000.
\<close>

theorem link_score_of_snapshot:
  "link_score (fst (calculate_signal_quality ta tb tc td te tf s)) =
     float_to_int
       (max (float_score (float_mean (map rssi_ant1 (m_rssis (cleanup_old_rssi_data ta s))))
                         (float_mean (map snr_ant1 (m_snrs s))))
            (float_score (float_mean (map rssi_ant2 (m_rssis (cleanup_old_rssi_data ta s))))
                         (float_mean (map snr_ant2 (m_snrs s))))) \<and>
   0 \<le> link_score (fst (calculate_signal_quality ta tb tc td te tf s)) \<and>
   link_score (fst (calculate_signal_quality ta tb tc td te tf s)) \<le> 100 \<and>
   (length (m_rssis (cleanup_old_rssi_data ta s)) \<le> 65536 \<and> length (m_snrs s) \<le> 65536 \<longrightarrow>
      \<bar>max (float_score (float_mean (map rssi_ant1 (m_rssis (cleanup_old_rssi_data ta s))))
                         (float_mean (map snr_ant1 (m_snrs s))))
            (float_score (float_mean (map rssi_ant2 (m_rssis (cleanup_old_rssi_data ta s))))
                         (float_mean (map snr_ant2 (m_snrs s))))
        - max (spec_antenna_score (spec_mean (map rssi_ant1 (m_rssis (cleanup_old_rssi_data ta s))))
                                  (spec_mean (map snr_ant1 (m_snrs s))))
              (spec_antenna_score (spec_mean (map rssi_ant2 (m_rssis (cleanup_old_rssi_data ta s))))
                                  (spec_mean (map snr_ant2 (m_snrs s))))\<bar> \<le> 1 / 10000 \<and>
      max (spec_antenna_score (spec_mean (map rssi_ant1 (m_rssis (cleanup_old_rssi_data ta s))))
                              (spec_mean (map snr_ant1 (m_snrs s))))
          (spec_antenna_score (spec_mean (map rssi_ant2 (m_rssis (cleanup_old_rssi_data ta s))))
                              (spec_mean (map snr_ant2 (m_snrs s)))) - 1 - 1 / 10000
        < of_int (link_score (fst (calculate_signal_quality ta tb tc td te tf s))) \<and>
      of_int (link_score (fst (calculate_signal_quality ta tb tc td te tf s)))
        \<le> max (spec_antenna_score (spec_mean (map rssi_ant1 (m_rssis (cleanup_old_rssi_data ta s))))
                                  (spec_mean (map snr_ant1 (m_snrs s))))
              (spec_antenna_score (spec_mean (map rssi_ant2 (m_rssis (cleanup_old_rssi_data ta s))))
                                  (spec_mean (map snr_ant2 (m_snrs s)))) + 1 / 10000)"
proof -
  define rs where "rs = m_rssis (cleanup_old_rssi_data ta s)"
  define ss where "ss = m_snrs s"
  define b1 where "b1 = float_score (float_mean (map rssi_ant1 rs)) (float_mean (map snr_ant1 ss))"
  define b2 where "b2 = float_score (float_mean (map rssi_ant2 rs)) (float_mean (map snr_ant2 ss))"
  define e1 where "e1 = spec_antenna_score (spec_mean (map rssi_ant1 rs)) (spec_mean (map snr_ant1 ss))"
  define e2 where "e2 = spec_antenna_score (spec_mean (map rssi_ant2 rs)) (spec_mean (map snr_ant2 ss))"
  define l where "l = link_score (fst (calculate_signal_quality ta tb tc td te tf s))"
  have eq: "l = float_to_int (max b1 b2)"
    by (simp add: l_def b1_def b2_def rs_def ss_def calculate_signal_quality_fst)
  have "0 \<le> b1 \<and> b1 \<le> 100" "0 \<le> b2 \<and> b2 \<le> 100"
    unfolding b1_def b2_def by (rule float_score_range)+
  then have range: "0 \<le> max b1 b2" "max b1 b2 \<le> 100"
    by argo+
  then have floor: "l = \<lfloor>max b1 b2\<rfloor>"
    by (simp add: eq float_to_int_def)
  from range have bounds: "0 \<le> l" "l \<le> 100"
    by (simp_all add: floor floor_le_iff)
  have close: "\<bar>max b1 b2 - max e1 e2\<bar> \<le> 1 / 10000"
    if len: "length rs \<le> 65536" "length ss \<le> 65536"
  proof -
    note err = antenna_mean_error(1) [OF len(1)] antenna_mean_error(2) [OF len(1)]
      antenna_mean_error(3) [OF len(2)] antenna_mean_error(4) [OF len(2)]
    note bnd = antenna_mean_bound(1) [of rs] antenna_mean_bound(2) [of rs]
      antenna_mean_bound(3) [of ss] antenna_mean_bound(4) [of ss]
    have r1: "\<bar>float_mean (map rssi_ant1 rs)\<bar> \<le> 256"
      using err(1) bnd(1) by argo
    have r2: "\<bar>float_mean (map rssi_ant2 rs)\<bar> \<le> 256"
      using err(2) bnd(2) by argo
    have s1: "\<bar>float_mean (map snr_ant1 ss)\<bar> \<le> 256"
      using err(3) bnd(3) by argo
    have s2: "\<bar>float_mean (map snr_ant2 ss)\<bar> \<le> 256"
      using err(4) bnd(4) by argo
    have "\<bar>b1 - e1\<bar> \<le> 1 / 10000"
      unfolding b1_def e1_def using err(1) r1 err(3) s1 by (rule float_score_error)
    moreover have "\<bar>b2 - e2\<bar> \<le> 1 / 10000"
      unfolding b2_def e2_def using err(2) r2 err(4) s2 by (rule float_score_error)
    ultimately show ?thesis by argo
  qed
  have fl: "of_int l \<le> max b1 b2" "max b1 b2 - 1 < of_int l"
    unfolding floor by linarith+
  have tol: "\<bar>max b1 b2 - max e1 e2\<bar> \<le> 1 / 10000 \<and>
      max e1 e2 - 1 - 1 / 10000 < of_int l \<and> of_int l \<le> max e1 e2 + 1 / 10000"
    if len: "length rs \<le> 65536" "length ss \<le> 65536"
    using close [OF len] fl by argo
  from eq bounds tol show ?thesis
    unfolding l_def b1_def b2_def e1_def e2_def rs_def ss_def by blast
qed

theorem link_score_of_snapshot_witness:
  "link_score (fst (calculate_signal_quality 1000 1000 1000 1000 1000 1000
     (add_snr 50 9 0 (add_snr 40 9 0 (add_snr 30 8 0 (add_snr 20 8 0 (add_snr 10 8 0 initial))))))) = 6 \<and>
   max (spec_antenna_score 0 (spec_mean [8, 8, 8, 9, 9])) (spec_antenna_score 0 (spec_mean [0, 0, 0, 0, 0])) = 7"
proof -
  let ?s = "add_snr 50 9 0 (add_snr 40 9 0 (add_snr 30 8 0 (add_snr 20 8 0 (add_snr 10 8 0 initial))))"
  have rssis: "m_rssis (cleanup_old_rssi_data 1000 ?s) = []"
    by (simp add: state_defs)
  have snrs: "map snr_ant1 (m_snrs ?s) = [8, 8, 8, 9, 9]" "map snr_ant2 (m_snrs ?s) = [0, 0, 0, 0, 0]"
    by (simp_all add: state_defs snr_ant1_def snr_ant2_def)
  have quotient: "to_float (42 / 5) = 4404019 / 524288"
    by (simp add: float_eval)
  have means: "float_mean [] = 0" "float_mean [8, 8, 8, 9, 9] = 4404019 / 524288"
    "float_mean [0, 0, 0, 0, 0] = 0"
    by (simp_all add: float_mean_def size_to_int_small to_float_numeral quotient)
  have scores: "float_score 0 (4404019 / 524288) = 14680063 / 2097152" "float_score 0 0 = 0"
    by (simp_all add: float_score_def map_range_def float_eval)
  have exact: "max (spec_antenna_score 0 (spec_mean [8, 8, 8, 9, 9]))
      (spec_antenna_score 0 (spec_mean [0, 0, 0, 0, 0])) = 7"
    by (simp add: spec_antenna_score_def spec_normalize_def spec_mean_def)
  have len: "length (m_rssis (cleanup_old_rssi_data 1000 ?s)) \<le> 65536 \<and> length (m_snrs ?s) \<le> 65536"
    by (simp add: state_defs)
  from link_score_of_snapshot [where ta = 1000 and tb = 1000 and tc = 1000 and td = 1000
      and te = 1000 and tf = 1000 and s = ?s] len
  have "link_score (fst (calculate_signal_quality 1000 1000 1000 1000 1000 1000 ?s)) =
      float_to_int (max (float_score (float_mean []) (float_mean [8, 8, 8, 9, 9]))
        (float_score (float_mean []) (float_mean [0, 0, 0, 0, 0])))"
    by (simp only: rssis snrs list.map)
  then have "link_score (fst (calculate_signal_quality 1000 1000 1000 1000 1000 1000 ?s)) = 6"
    by (simp add: means scores float_to_int_def)
  with exact show ?thesis by simp
qed

text \<open>
  Claim C5 as stated fails: with one RSSI sample (63,0) and one SNR sample (15,0) the
  greater blended score is 0.5 * 50 + 0.5 * 25 = 37.5 and the snapshot reports 37.
\<close>

theorem link_score_is_truncated:
  "link_score (fst (calculate_signal_quality 1000 1000 1000 1000 1000 1000
     (add_snr 20 15 0 (add_rssi 10 63 0 initial)))) = 37 \<and>
   max (spec_antenna_score
          (spec_mean (map rssi_ant1 (m_rssis (cleanup_old_rssi_data 1000
             (add_snr 20 15 0 (add_rssi 10 63 0 initial))))))
          (spec_mean (map snr_ant1 (m_snrs (add_snr 20 15 0 (add_rssi 10 63 0 initial))))))
       (spec_antenna_score
          (spec_mean (map rssi_ant2 (m_rssis (cleanup_old_rssi_data 1000
             (add_snr 20 15 0 (add_rssi 10 63 0 initial))))))
          (spec_mean (map snr_ant2 (m_snrs (add_snr 20 15 0 (add_rssi 10 63 0 initial))))))
     = 75 / 2"
proof -
  let ?s = "add_snr 20 15 0 (add_rssi 10 63 0 initial)"
  have rssis: "map rssi_ant1 (m_rssis (cleanup_old_rssi_data 1000 ?s)) = [63]"
    "map rssi_ant2 (m_rssis (cleanup_old_rssi_data 1000 ?s)) = [0]"
    by (simp_all add: state_defs rssi_ant1_def rssi_ant2_def)
  have snrs: "map snr_ant1 (m_snrs ?s) = [15]" "map snr_ant2 (m_snrs ?s) = [0]"
    by (simp_all add: state_defs snr_ant1_def snr_ant2_def)
  have means: "float_mean [63] = 63" "float_mean [15] = 15" "float_mean [0] = 0"
    by (simp_all add: float_mean_def size_to_int_small to_float_numeral)
  have scores: "float_score 63 15 = 75 / 2" "float_score 0 0 = 0"
    by (simp_all add: float_score_def map_range_def float_eval)
  show ?thesis
    by (simp add: calculate_signal_quality_fst rssis snrs means scores float_to_int_def
        spec_mean_def spec_antenna_score_def spec_normalize_def)
qed

subsection \<open>Normalisation\<close>

text \<open>
  Claim C6. The normalisation maps the ends of its domain exactly, RSSI mean 0 to 0 and 126
  to 100, SNR mean 0 to 0 and 60 to 100, and every mean, inside the domain or not, to a
  value between 0 and 100.
\<close>

theorem map_range_clamps:
  "map_range 0 0 126 0 100 = 0 \<and> map_range 126 0 126 0 100 = 100 \<and>
   map_range 0 0 60 0 100 = 0 \<and> map_range 60 0 60 0 100 = 100 \<and>
   0 \<le> map_range v 0 126 0 100 \<and> map_range v 0 126 0 100 \<le> 100 \<and>
   0 \<le> map_range v 0 60 0 100 \<and> map_range v 0 60 0 100 \<le> 100"
  by (simp add: map_range_def to_double_numeral)

end
